theory Spec2Isabelle
  imports Complex_Main
begin

section \<open>The spinner: one child command, supervised\<close>

text \<open>
  The program is \<^verbatim>\<open>spinner.py\<close>: a frozen dataclass \<^verbatim>\<open>Spinner\<close> whose method
  \<^verbatim>\<open>spin\<close> forks, runs the command in the child with \<^verbatim>\<open>execvp\<close>, and polls the child
  from the parent while it draws an animation, forwards signals and enforces a timeout.

  The embedding keeps the parent's control flow statement by statement. Everything the
  operating system decides is read from an environment \<open>env\<close>: what \<^verbatim>\<open>fork\<close> returns,
  whether \<^verbatim>\<open>execvp\<close> fails, which signals reach the supervisor and when, when the child
  terminates and with which wait status, and what the monotonic clock shows. The
  supervisor's side is a record \<open>world\<close> that is passed along and returned: the events
  it has produced so far, the signal dispositions, the state of the child process and
  the two variables shared with the signal handler.

  A call of \<^verbatim>\<open>spin\<close> ends in one of four ways (\<open>outcome\<close>): it returns a value, an
  exception leaves it, or, in the child, the process becomes the command or ends in
  \<^verbatim>\<open>_exit\<close>. It may also never end, when it waits for a child that never terminates:
  the loops are partial functions and that run has the value \<open>None\<close>.

  What is taken for granted: \<^verbatim>\<open>fork\<close>, the three \<^verbatim>\<open>signal\<close> calls that install the
  handler and the calls of the \<^verbatim>\<open>finally\<close> block succeed, printing succeeds, and
  nobody but the supervisor waits for the child. Time is a real number; the rounding of
  floating-point clock readings is not modelled.
\<close>

subsection \<open>Constants of the platform\<close>

definition SIGINT :: int where "SIGINT = 2"
definition SIGQUIT :: int where "SIGQUIT = 3"
definition SIGKILL :: int where "SIGKILL = 9"
definition SIGTERM :: int where "SIGTERM = 15"

text \<open>
  The wait status of a terminated child, decoded as the C library does: the low seven
  bits hold the terminating signal (0 for a normal exit, 127 for a stopped child), bit 7
  the core-dump flag, bits 8 to 15 the exit code.
\<close>

definition WTERMSIG :: "int \<Rightarrow> int" where
  "WTERMSIG status = status mod 128"

definition WIFEXITED :: "int \<Rightarrow> bool" where
  "WIFEXITED status = (WTERMSIG status = 0)"

definition WEXITSTATUS :: "int \<Rightarrow> int" where
  "WEXITSTATUS status = (status div 256) mod 256"

definition WIFSIGNALED :: "int \<Rightarrow> bool" where
  "WIFSIGNALED status = (0 < WTERMSIG status \<and> WTERMSIG status < 127)"

text \<open>The status the kernel reports for \<^verbatim>\<open>_exit(code)\<close> and for death by a signal.\<close>

definition W_EXITCODE :: "int \<Rightarrow> int \<Rightarrow> int" where
  "W_EXITCODE ret sig = ret * 256 + sig"

subsection \<open>Data\<close>

text \<open>
  The field \<^verbatim>\<open>command\<close> is annotated \<^verbatim>\<open>list[str]\<close>, but \<^verbatim>\<open>spin\<close> tests
  \<^verbatim>\<open>isinstance(self.command, str)\<close>, so both shapes are values of the field.
\<close>

datatype cmd = Cmd_str string | Cmd_list "string list"

record spinner =
  command :: cmd
  wait_text :: "string option"
  max_duration :: "int option"

text \<open>
  \<^verbatim>\<open>__post_init__\<close> fills in the default wait text. \<open>fmt\<close> stands for the rendering of
  \<^verbatim>\<open>self.command\<close> inside the f-string.
\<close>

definition post_init :: "(cmd \<Rightarrow> string) \<Rightarrow> spinner \<Rightarrow> spinner" where
  "post_init fmt sp =
     (if wait_text sp = None
      then sp\<lparr>wait_text := Some (''Please wait, running command: '' @ fmt (command sp))\<rparr>
      else sp)"

text \<open>
  A disposition is either whatever was installed before the call, or the closure
  \<^verbatim>\<open>sig_handler\<close> of this call, which captures the child's pid.
\<close>

datatype prev_handler = SIG_DFL | SIG_IGN | Callable nat

datatype handler = Previous prev_handler | Sig_handler int

datatype proc = No_child | Running | Zombie int | Reaped

datatype exn = ProcessLookupError | ChildProcessError | Internal_error string

datatype event =
    Stdout string
  | Stderr string
  | Sleep real
  | Kill int int
  | Waitpid int int int
  | Set_signal int handler
  | Clock_read real
  | Exec string "string list"
  | Os_exit int

record world =
  trace :: "event list"
  handlers :: "int \<Rightarrow> handler"
  child :: proc
  interrupted :: bool
  signal_received :: "int option"
  tick :: nat

text \<open>
  The environment. \<open>tick\<close> counts the points at which the supervisor gives the rest of
  the system a chance to act (a sleep, a wait); at point \<open>n\<close> the child terminates with
  status \<open>st\<close> if it is still running and \<open>child_exit_at n = Some st\<close>, the signals
  \<open>sig_at n\<close> are delivered to the supervisor, and a library call inside the
  \<^verbatim>\<open>try\<close> block fails with an unexpected exception if \<open>fault_at n\<close> says so.
\<close>

record env =
  fork_ret :: int
  execvp_error :: "string \<Rightarrow> string list \<Rightarrow> string option"
  sig_at :: "nat \<Rightarrow> int list"
  child_exit_at :: "nat \<Rightarrow> int option"
  clock_at :: "nat \<Rightarrow> real"
  fault_at :: "nat \<Rightarrow> string option"

datatype 'a result = Done 'a world | Throw exn world

datatype outcome = Return int | Raised exn | Child_exec "string list" | Child_exit int

subsection \<open>Output\<close>

definition ESC :: char where "ESC = CHR 0x1B"
definition BS :: char where "BS = CHR 0x08"
definition NL :: char where "NL = CHR 0x0A"

definition print_out :: "string \<Rightarrow> world \<Rightarrow> world" where
  "print_out t s = s\<lparr>trace := trace s @ [Stdout t]\<rparr>"

definition print_err :: "string \<Rightarrow> world \<Rightarrow> world" where
  "print_err t s = s\<lparr>trace := trace s @ [Stderr (t @ [NL])]\<rparr>"

definition hide_seq :: string where "hide_seq = ESC # ''[?25l''"
definition show_seq :: string where "show_seq = ESC # ''[?25h''"

definition hide_cursor :: "world \<Rightarrow> world" where
  "hide_cursor s = print_out hide_seq s"

definition show_cursor :: "world \<Rightarrow> world" where
  "show_cursor s = print_out show_seq s"

definition spinner_glyphs :: string where
  "spinner_glyphs = [CHR ''-'', CHR 0x5C, CHR ''|'', CHR ''/'']"

fun digit_char :: "nat \<Rightarrow> char" where
  "digit_char n = char_of (48 + n)"

function str_nat :: "nat \<Rightarrow> string" where
  "str_nat n = (if n < 10 then [digit_char n] else str_nat (n div 10) @ [digit_char (n mod 10)])"
  by pat_completeness auto
termination
  by (relation "measure id") auto

definition str_int :: "int \<Rightarrow> string" where
  "str_int i = (if i < 0 then CHR ''-'' # str_nat (nat (- i)) else str_nat (nat i))"

text \<open>\<^verbatim>\<open>signal_names.get(signal_received, f"signal {signal_received}")\<close>\<close>

definition signal_name :: "int \<Rightarrow> string" where
  "signal_name g =
     (if g = SIGINT then ''SIGINT''
      else if g = SIGTERM then ''SIGTERM''
      else if g = SIGQUIT then ''SIGQUIT''
      else ''signal '' @ str_int g)"

subsection \<open>System calls\<close>

text \<open>
  \<^verbatim>\<open>kill(pid, sig)\<close>: a process that has been reaped no longer exists. SIGKILL cannot be
  caught, so a running child is dead once it is sent; how the child reacts to any
  other signal is the environment's \<open>child_exit_at\<close>.
\<close>

definition os_kill :: "int \<Rightarrow> int \<Rightarrow> world \<Rightarrow> unit result" where
  "os_kill pid sig s =
     (case child s of
        Running \<Rightarrow>
          Done () (s\<lparr>trace := trace s @ [Kill pid sig],
                     child := (if sig = SIGKILL then Zombie (W_EXITCODE 0 SIGKILL) else Running)\<rparr>)
      | Zombie st \<Rightarrow> Done () (s\<lparr>trace := trace s @ [Kill pid sig]\<rparr>)
      | _ \<Rightarrow> Throw ProcessLookupError s)"

text \<open>
  Lines 68 to 77: the handler sets both variables and forwards the signal;
  \<^verbatim>\<open>ProcessLookupError\<close> is the one exception it swallows.
\<close>

definition sig_handler :: "int \<Rightarrow> int \<Rightarrow> world \<Rightarrow> unit result" where
  "sig_handler pid signum s =
     (let s1 = s\<lparr>interrupted := True, signal_received := Some signum\<rparr>
      in case os_kill pid signum s1 of
           Throw ProcessLookupError s2 \<Rightarrow> Done () s2
         | Throw x s2 \<Rightarrow> Throw x s2
         | Done u s2 \<Rightarrow> Done () s2)"

text \<open>
  Delivery of signals to the supervisor: a signal whose disposition is this call's
  handler runs it; what a previous disposition does with a signal is not part of the
  call.
\<close>

fun deliver :: "int list \<Rightarrow> world \<Rightarrow> unit result" where
  "deliver [] s = Done () s"
| "deliver (g # gs) s =
     (case handlers s g of
        Sig_handler pid \<Rightarrow>
          (case sig_handler pid g s of
             Throw x s1 \<Rightarrow> Throw x s1
           | Done u s1 \<Rightarrow> deliver gs s1)
      | Previous h \<Rightarrow> deliver gs s)"

definition child_progress :: "env \<Rightarrow> nat \<Rightarrow> world \<Rightarrow> world" where
  "child_progress e n s =
     (case child s of
        Running \<Rightarrow> (case child_exit_at e n of Some st \<Rightarrow> s\<lparr>child := Zombie st\<rparr> | None \<Rightarrow> s)
      | _ \<Rightarrow> s)"

text \<open>
  One point at which the rest of the system acts: the child may terminate, then the
  pending signals are delivered. \<open>checkpoint\<close> is such a point inside the \<^verbatim>\<open>try\<close> block,
  where in addition the call in progress may fail with an exception of its own.
\<close>

definition env_point :: "env \<Rightarrow> world \<Rightarrow> unit result" where
  "env_point e s =
     deliver (sig_at e (tick s)) (child_progress e (tick s) (s\<lparr>tick := Suc (tick s)\<rparr>))"

definition checkpoint :: "env \<Rightarrow> world \<Rightarrow> unit result" where
  "checkpoint e s =
     (case env_point e s of
        Throw x s1 \<Rightarrow> Throw x s1
      | Done u s1 \<Rightarrow>
          (case fault_at e (tick s) of
             Some m \<Rightarrow> Throw (Internal_error m) s1
           | None \<Rightarrow> Done () s1))"

text \<open>\<^verbatim>\<open>sleep\<close> and the two forms of \<^verbatim>\<open>waitpid\<close> take time: each is a checkpoint.\<close>

definition py_sleep :: "env \<Rightarrow> real \<Rightarrow> world \<Rightarrow> unit result" where
  "py_sleep e d s =
     (case checkpoint e s of
        Throw x s1 \<Rightarrow> Throw x s1
      | Done u s1 \<Rightarrow> Done () (s1\<lparr>trace := trace s1 @ [Sleep d]\<rparr>))"

text \<open>\<^verbatim>\<open>monotonic()\<close> reads the clock of the current point.\<close>

definition monotonic :: "env \<Rightarrow> world \<Rightarrow> real" where
  "monotonic e s = clock_at e (tick s)"

definition WNOHANG :: int where "WNOHANG = 1"

text \<open>What a \<^verbatim>\<open>waitpid\<close> call finds once the child has terminated: it reaps the child.\<close>

definition reap :: "int \<Rightarrow> int \<Rightarrow> int \<Rightarrow> world \<Rightarrow> (int \<times> int) result" where
  "reap pid options st s =
     Done (pid, st) (s\<lparr>trace := trace s @ [Waitpid options pid st], child := Reaped\<rparr>)"

definition waitpid_nohang :: "env \<Rightarrow> int \<Rightarrow> world \<Rightarrow> (int \<times> int) result" where
  "waitpid_nohang e pid s =
     (case checkpoint e s of
        Throw x s1 \<Rightarrow> Throw x s1
      | Done u s1 \<Rightarrow>
          (case child s1 of
             Zombie st \<Rightarrow> reap pid WNOHANG st s1
           | Running \<Rightarrow> Done (0, 0) (s1\<lparr>trace := trace s1 @ [Waitpid WNOHANG 0 0]\<rparr>)
           | _ \<Rightarrow> Throw ChildProcessError s1))"

text \<open>
  \<^verbatim>\<open>waitpid(pid, 0)\<close> blocks until the child terminates; a signal that arrives meanwhile
  runs its handler and the wait is resumed. A child that never terminates makes the
  call, and \<^verbatim>\<open>spin\<close> with it, run forever: the value \<open>None\<close>.
\<close>

partial_function (option) waitpid_block :: "env \<Rightarrow> int \<Rightarrow> world \<Rightarrow> (int \<times> int) result option" where
  "waitpid_block e pid s =
     (case checkpoint e s of
        Throw x s1 \<Rightarrow> Some (Throw x s1)
      | Done u s1 \<Rightarrow>
          (case child s1 of
             Zombie st \<Rightarrow> Some (reap pid 0 st s1)
           | Running \<Rightarrow> waitpid_block e pid s1
           | _ \<Rightarrow> Some (Throw ChildProcessError s1)))"

definition py_signal :: "int \<Rightarrow> handler \<Rightarrow> world \<Rightarrow> handler \<times> world" where
  "py_signal g h s =
     (handlers s g, s\<lparr>trace := trace s @ [Set_signal g h], handlers := (handlers s)(g := h)\<rparr>)"

subsection \<open>The child's branch\<close>

text \<open>
  \<^verbatim>\<open>execvp(argv[0], argv)\<close> inside \<^verbatim>\<open>try\<close>; \<^verbatim>\<open>except Exception\<close> also catches the
  \<^verbatim>\<open>IndexError\<close> of an empty \<^verbatim>\<open>argv\<close>. The branch ends in the new process image or
  in \<^verbatim>\<open>_exit(127)\<close>: it never reaches the parent's code.
\<close>

definition try_execvp :: "env \<Rightarrow> string list \<Rightarrow> string option" where
  "try_execvp e argv =
     (case argv of
        [] \<Rightarrow> Some ''list index out of range''
      | file # rest \<Rightarrow> execvp_error e file argv)"

definition child_branch :: "env \<Rightarrow> string list \<Rightarrow> world \<Rightarrow> outcome \<times> world" where
  "child_branch e argv s =
     (case try_execvp e argv of
        None \<Rightarrow> (Child_exec argv, s\<lparr>trace := trace s @ [Exec (hd argv) argv]\<rparr>)
      | Some msg \<Rightarrow>
          (Child_exit 127,
           (print_err (NL # ''exec failed: '' @ msg) s)
             \<lparr>trace := trace (print_err (NL # ''exec failed: '' @ msg) s) @ [Os_exit 127]\<rparr>))"

subsection \<open>The parent's polling loop\<close>

text \<open>Lines 137 to 143: the translation of the wait status after the loop.\<close>

definition exit_code_of :: "int \<Rightarrow> int" where
  "exit_code_of status =
     (if WIFEXITED status then WEXITSTATUS status
      else if WIFSIGNALED status then 128 + WTERMSIG status
      else 128)"

text \<open>Lines 117 to 129: the escalation once the timeout check has fired.\<close>

definition timeout_path :: "env \<Rightarrow> int \<Rightarrow> world \<Rightarrow> (outcome \<times> world) option" where
  "timeout_path e pid s =
     (let s1 = print_err (NL # ''Process timed out.'') s
      in case os_kill pid SIGTERM s1 of
           Throw x s2 \<Rightarrow> Some (Raised x, s2)
         | Done u s2 \<Rightarrow>
             (case py_sleep e 1 s2 of
                Throw x s3 \<Rightarrow> Some (Raised x, s3)
              | Done u s3 \<Rightarrow>
                  (case waitpid_nohang e pid s3 of
                     Throw ProcessLookupError s4 \<Rightarrow> Some (Return 124, s4)
                   | Throw x s4 \<Rightarrow> Some (Raised x, s4)
                   | Done (finished_pid, status) s4 \<Rightarrow>
                       if finished_pid = 0 then
                         (case os_kill pid SIGKILL s4 of
                            Throw ProcessLookupError s5 \<Rightarrow> Some (Return 124, s5)
                          | Throw x s5 \<Rightarrow> Some (Raised x, s5)
                          | Done u s5 \<Rightarrow>
                              (case waitpid_block e pid s5 of
                                 None \<Rightarrow> None
                               | Some (Throw ProcessLookupError s6) \<Rightarrow> Some (Return 124, s6)
                               | Some (Throw x s6) \<Rightarrow> Some (Raised x, s6)
                               | Some (Done r s6) \<Rightarrow> Some (Return 124, s6)))
                       else Some (Return 124, s4))))"

text \<open>Lines 88 to 109: the branch taken when the loop finds \<^verbatim>\<open>interrupted\<close> set.\<close>

definition interrupted_path :: "env \<Rightarrow> int \<Rightarrow> world \<Rightarrow> (outcome \<times> world) option" where
  "interrupted_path e pid s =
     (case py_sleep e (1 / 10) s of
        Throw x s1 \<Rightarrow> Some (Raised x, s1)
      | Done u s1 \<Rightarrow>
          (case waitpid_block e pid s1 of
             None \<Rightarrow> None
           | Some (Throw x s2) \<Rightarrow> Some (Raised x, s2)
           | Some (Done r s2) \<Rightarrow>
               (case signal_received s2 of
                  Some g \<Rightarrow>
                    Some (Return (128 + g),
                          print_err (NL # ''Interrupted by '' @ signal_name g @ ''.'') s2)
                | None \<Rightarrow> Some (Return 130, print_err (NL # ''Interrupted.'') s2))))"

text \<open>Lines 115 and 116: the timeout check, which reads the clock only when a maximum is set.\<close>

definition timed_out :: "env \<Rightarrow> spinner \<Rightarrow> real \<Rightarrow> world \<Rightarrow> bool" where
  "timed_out e sp start s =
     (case max_duration sp of
        None \<Rightarrow> False
      | Some d \<Rightarrow> monotonic e s - start \<ge> real_of_int d)"

definition clock_checked :: "env \<Rightarrow> spinner \<Rightarrow> world \<Rightarrow> world" where
  "clock_checked e sp s =
     (case max_duration sp of
        None \<Rightarrow> s
      | Some d \<Rightarrow> s\<lparr>trace := trace s @ [Clock_read (monotonic e s)]\<rparr>)"

partial_function (option) poll_loop ::
  "env \<Rightarrow> spinner \<Rightarrow> int \<Rightarrow> real \<Rightarrow> nat \<Rightarrow> world \<Rightarrow> (outcome \<times> world) option" where
  "poll_loop e sp pid start i s =
     (if interrupted s then interrupted_path e pid s
      else
        (case waitpid_nohang e pid s of
           Throw x s1 \<Rightarrow> Some (Raised x, s1)
         | Done (finished_pid, status) s1 \<Rightarrow>
             if finished_pid \<noteq> 0 then Some (Return (exit_code_of status), s1)
             else if timed_out e sp start s1 then timeout_path e pid (clock_checked e sp s1)
             else
               (case py_sleep e (2 / 10)
                       (print_out [spinner_glyphs ! (i mod length spinner_glyphs)]
                          (clock_checked e sp s1)) of
                  Throw x s2 \<Rightarrow> Some (Raised x, s2)
                | Done u s2 \<Rightarrow> poll_loop e sp pid start (i + 1) (print_out [BS] s2))))"

subsection \<open>The whole call\<close>

text \<open>
  Lines 145 to 151: the \<^verbatim>\<open>finally\<close> block, entered with the outcome of the \<^verbatim>\<open>try\<close>
  block, whether a return value or an exception. The handler is still installed when the
  block starts, so signals may be delivered once more before the dispositions are set
  back; a signal that arrives after the child has been reaped makes the handler's
  \<^verbatim>\<open>kill\<close> fail, which the handler swallows.
\<close>

definition finally_block ::
  "env \<Rightarrow> handler \<times> handler \<times> handler \<Rightarrow> outcome \<Rightarrow> world \<Rightarrow> outcome \<times> world" where
  "finally_block e olds out s =
     (case olds of (old_sigint, old_sigterm, old_sigquit) \<Rightarrow>
        (case env_point e s of
           Throw x s1 \<Rightarrow> (Raised x, s1)
         | Done u s1 \<Rightarrow>
             (let s2 = snd (py_signal SIGINT old_sigint s1);
                  s3 = snd (py_signal SIGTERM old_sigterm s2);
                  s4 = snd (py_signal SIGQUIT old_sigquit s3);
                  s5 = show_cursor s4;
                  s6 = print_out [NL] s5
              in (out, s6))))"

definition supervise ::
  "env \<Rightarrow> spinner \<Rightarrow> int \<Rightarrow> real \<Rightarrow> handler \<times> handler \<times> handler \<Rightarrow> nat \<Rightarrow> world
     \<Rightarrow> (outcome \<times> world) option" where
  "supervise e sp pid start olds i s =
     (case poll_loop e sp pid start i s of
        None \<Rightarrow> None
      | Some (out, s1) \<Rightarrow> Some (finally_block e olds out s1))"

definition normalize_command :: "cmd \<Rightarrow> string list" where
  "normalize_command c = (case c of Cmd_str x \<Rightarrow> [x] | Cmd_list xs \<Rightarrow> xs)"

definition wait_message :: "spinner \<Rightarrow> string" where
  "wait_message sp = (case wait_text sp of Some t \<Rightarrow> t | None \<Rightarrow> ''None'') @ '' ''"

definition initial_world :: "(int \<Rightarrow> prev_handler) \<Rightarrow> world" where
  "initial_world old =
     \<lparr>trace = [], handlers = (\<lambda>g. Previous (old g)), child = No_child,
      interrupted = False, signal_received = None, tick = 0\<rparr>"

definition install_handlers :: "int \<Rightarrow> world \<Rightarrow> (handler \<times> handler \<times> handler) \<times> world" where
  "install_handlers pid s =
     (let (old_sigint, s1) = py_signal SIGINT (Sig_handler pid) s;
          (old_sigterm, s2) = py_signal SIGTERM (Sig_handler pid) s1;
          (old_sigquit, s3) = py_signal SIGQUIT (Sig_handler pid) s2
      in ((old_sigint, old_sigterm, old_sigquit), s3))"

definition spin :: "env \<Rightarrow> spinner \<Rightarrow> (int \<Rightarrow> prev_handler) \<Rightarrow> (outcome \<times> world) option" where
  "spin e sp old =
     (let argv = normalize_command (command sp);
          s1 = print_out (wait_message sp) (initial_world old);
          s2 = hide_cursor s1;
          pid = fork_ret e
      in if pid = 0 then Some (child_branch e argv s2)
         else
           (let s3 = s2\<lparr>child := Running\<rparr>;
                start = monotonic e s3;
                (olds, s4) = install_handlers pid s3
            in supervise e sp pid start olds 0 s4))"

declare waitpid_block.simps [code]
declare poll_loop.simps [code]

subsection \<open>Vocabulary of the properties\<close>

text \<open>
  The animation is the output of lines 131 and 133: one glyph of the spinner, or the
  backspace that erases it. The timeout check is the clock reading of line 116.
\<close>

definition is_animation :: "event \<Rightarrow> bool" where
  "is_animation ev =
     (case ev of Stdout t \<Rightarrow> t \<in> set (map (\<lambda>c. [c]) spinner_glyphs) \<or> t = [BS] | _ \<Rightarrow> False)"

definition is_timeout_check :: "event \<Rightarrow> bool" where
  "is_timeout_check ev = (case ev of Clock_read t \<Rightarrow> True | _ \<Rightarrow> False)"

definition silent :: "event \<Rightarrow> bool" where
  "silent ev = (\<not> is_animation ev \<and> \<not> is_timeout_check ev)"

text \<open>
  The events of the system calls inside the \<^verbatim>\<open>try\<close> block, and the events the
  polling loop may produce: those, the animation and the clock readings.
\<close>

definition sys_event :: "event \<Rightarrow> bool" where
  "sys_event ev =
     (case ev of Kill p g \<Rightarrow> True | Sleep d \<Rightarrow> True | Waitpid a b c \<Rightarrow> True
      | Stderr t \<Rightarrow> True | _ \<Rightarrow> False)"

definition body_event :: "event \<Rightarrow> bool" where
  "body_event ev = (sys_event ev \<or> is_animation ev \<or> is_timeout_check ev)"

text \<open>
  \<open>grows_by P s s'\<close>: from \<open>s\<close> to \<open>s'\<close> the dispositions are unchanged and the trace
  has been extended by events that satisfy \<open>P\<close>. \<open>passes s s'\<close>: a system call took the
  world from \<open>s\<close> to \<open>s'\<close>; it neither reaps the child nor brings it back.
\<close>

definition grows_by :: "(event \<Rightarrow> bool) \<Rightarrow> world \<Rightarrow> world \<Rightarrow> bool" where
  "grows_by P s s' =
     (handlers s' = handlers s \<and> (\<exists>evs. trace s' = trace s @ evs \<and> list_all P evs))"

fun world_of :: "'a result \<Rightarrow> world" where
  "world_of (Done x s) = s"
| "world_of (Throw x s) = s"

fun thrown :: "'a result \<Rightarrow> exn option" where
  "thrown (Done x s) = None"
| "thrown (Throw x s) = Some x"

definition alive :: "world \<Rightarrow> bool" where
  "alive s = (child s \<noteq> Reaped \<and> child s \<noteq> No_child)"

definition passes :: "world \<Rightarrow> world \<Rightarrow> bool" where
  "passes s s' =
     (grows_by sys_event s s' \<and> tick s \<le> tick s' \<and> (child s = Reaped \<longrightarrow> child s' = Reaped)
      \<and> (alive s \<longrightarrow> alive s'))"

text \<open>
  The child has been reaped by the supervisor: it is gone, and some \<^verbatim>\<open>waitpid\<close> call
  returned its pid.
\<close>

definition waited_on :: "int \<Rightarrow> event \<Rightarrow> bool" where
  "waited_on pid ev = (case ev of Waitpid options finished_pid st \<Rightarrow> finished_pid = pid | _ \<Rightarrow> False)"

definition reaped_by_wait :: "int \<Rightarrow> world \<Rightarrow> bool" where
  "reaped_by_wait pid s = (child s = Reaped \<and> list_ex (waited_on pid) (trace s))"

definition loop_post :: "int \<Rightarrow> world \<Rightarrow> outcome \<times> world \<Rightarrow> bool" where
  "loop_post pid s y =
     (grows_by body_event s (snd y)
      \<and> ((\<exists>v. fst y = Return v) \<or> (\<exists>x. fst y = Raised x))
      \<and> (pid \<noteq> 0 \<longrightarrow> (\<forall>v. fst y = Return v \<longrightarrow> reaped_by_wait pid (snd y))))"

text \<open>
  Control leaves \<^verbatim>\<open>spin\<close> by a return value or by an exception. In the child it never
  does: the process image is replaced, or the process ends in \<^verbatim>\<open>_exit\<close>.
\<close>

fun leaves_spin :: "outcome \<Rightarrow> bool" where
  "leaves_spin (Return v) = True"
| "leaves_spin (Raised x) = True"
| "leaves_spin (Child_exec argv) = False"
| "leaves_spin (Child_exit c) = False"

text \<open>\<open>emitted_before a b tr\<close>: both occur in \<open>tr\<close>, and \<open>a\<close> occurs before the first \<open>b\<close>.\<close>

definition emitted_before :: "event \<Rightarrow> event \<Rightarrow> event list \<Rightarrow> bool" where
  "emitted_before a b tr = (a \<in> set (takeWhile (\<lambda>ev. ev \<noteq> b) tr) \<and> b \<in> set tr)"

definition run_outcome :: "(outcome \<times> world) option \<Rightarrow> outcome option" where
  "run_outcome r = map_option fst r"

definition run_trace :: "(outcome \<times> world) option \<Rightarrow> event list" where
  "run_trace r = (case r of None \<Rightarrow> [] | Some (out, s) \<Rightarrow> trace s)"

text \<open>
  The events of the \<^verbatim>\<open>finally\<close> block, the dispositions it leaves, and the world at the
  entry of the \<^verbatim>\<open>try\<close> block in the parent.
\<close>

definition finally_events :: "handler \<times> handler \<times> handler \<Rightarrow> event list" where
  "finally_events olds =
     (case olds of (old_sigint, old_sigterm, old_sigquit) \<Rightarrow>
        [Set_signal SIGINT old_sigint, Set_signal SIGTERM old_sigterm,
         Set_signal SIGQUIT old_sigquit, Stdout show_seq, Stdout [NL]])"

definition restored :: "handler \<times> handler \<times> handler \<Rightarrow> (int \<Rightarrow> handler) \<Rightarrow> (int \<Rightarrow> handler)" where
  "restored olds h =
     (case olds of (old_sigint, old_sigterm, old_sigquit) \<Rightarrow>
        h(SIGINT := old_sigint, SIGTERM := old_sigterm, SIGQUIT := old_sigquit))"

definition old_handlers :: "(int \<Rightarrow> prev_handler) \<Rightarrow> handler \<times> handler \<times> handler" where
  "old_handlers old = (Previous (old SIGINT), Previous (old SIGTERM), Previous (old SIGQUIT))"

definition armed_world :: "env \<Rightarrow> spinner \<Rightarrow> (int \<Rightarrow> prev_handler) \<Rightarrow> world" where
  "armed_world e sp old =
     \<lparr>trace = [Stdout (wait_message sp), Stdout hide_seq,
               Set_signal SIGINT (Sig_handler (fork_ret e)),
               Set_signal SIGTERM (Sig_handler (fork_ret e)),
               Set_signal SIGQUIT (Sig_handler (fork_ret e))],
      handlers = (\<lambda>g. Previous (old g))
         (SIGINT := Sig_handler (fork_ret e), SIGTERM := Sig_handler (fork_ret e),
          SIGQUIT := Sig_handler (fork_ret e)),
      child = Running, interrupted = False, signal_received = None, tick = 0\<rparr>"

text \<open>
  Environments in which nothing but the child acts: no signal reaches the supervisor and
  no call fails. \<open>first_exit e n m st\<close>: from point \<open>n\<close> on, the child terminates first at
  point \<open>m\<close>, with status \<open>st\<close>. \<open>grace_exit e n\<close>: the status with which the child
  terminates at one of the two points of the grace period that starts at \<open>n\<close>, if it does.
\<close>

definition calm :: "env \<Rightarrow> bool" where
  "calm e = (\<forall>n. sig_at e n = [] \<and> fault_at e n = None)"

definition first_exit :: "env \<Rightarrow> nat \<Rightarrow> nat \<Rightarrow> int \<Rightarrow> bool" where
  "first_exit e n m st =
     (n \<le> m \<and> child_exit_at e m = Some st \<and> (\<forall>k. n \<le> k \<and> k < m \<longrightarrow> child_exit_at e k = None))"

definition never_times_out :: "env \<Rightarrow> spinner \<Rightarrow> real \<Rightarrow> nat \<Rightarrow> bool" where
  "never_times_out e sp start m =
     (case max_duration sp of
        None \<Rightarrow> True
      | Some d \<Rightarrow> (\<forall>n\<le>m. clock_at e n - start < real_of_int d))"

definition fate :: "env \<Rightarrow> world \<Rightarrow> nat \<Rightarrow> int \<Rightarrow> bool" where
  "fate e s m st = (child s = Zombie st \<or> (child s = Running \<and> first_exit e (tick s) m st))"

definition grace_exit :: "env \<Rightarrow> nat \<Rightarrow> int option" where
  "grace_exit e n =
     (case child_exit_at e n of
        Some st \<Rightarrow> Some st
      | None \<Rightarrow> child_exit_at e (Suc n))"

subsection \<open>Concrete inputs\<close>

text \<open>
  The spinner of the \<^verbatim>\<open>__main__\<close> block, and environments for it: one in which the
  child, with pid \<open>pid\<close>, terminates at point \<open>m\<close> with status \<open>st\<close> and nothing else
  happens, and variations with a failing call, a failing \<^verbatim>\<open>execvp\<close>, or a signal.
\<close>

definition demo_spinner :: spinner where
  "demo_spinner =
     \<lparr>command = Cmd_list [''sleep'', ''5''], wait_text = Some ''Hehe Waitin'', max_duration = None\<rparr>"

definition demo_old :: "int \<Rightarrow> prev_handler" where
  "demo_old g = (if g = SIGINT then Callable 0 else SIG_DFL)"

definition calm_env :: "int \<Rightarrow> nat \<Rightarrow> int \<Rightarrow> env" where
  "calm_env pid m st =
     \<lparr>fork_ret = pid, execvp_error = (\<lambda>file argv. None), sig_at = (\<lambda>n. []),
      child_exit_at = (\<lambda>n. if n = m then Some st else None),
      clock_at = (\<lambda>n. real n / 5), fault_at = (\<lambda>n. None)\<rparr>"

definition faulty_env :: env where
  "faulty_env = (calm_env 4242 5 0)\<lparr>fault_at := (\<lambda>n. if n = 2 then Some ''boom'' else None)\<rparr>"

definition seen_interrupt :: world where
  "seen_interrupt =
     (armed_world (calm_env 4242 1 2) demo_spinner demo_old)
       \<lparr>interrupted := True, signal_received := Some SIGINT\<rparr>"

definition enoent_env :: env where
  "enoent_env =
     (calm_env 4242 2 (W_EXITCODE 127 0))
       \<lparr>execvp_error := (\<lambda>file argv. Some ''[Errno 2] No such file or directory'')\<rparr>"

definition nosuch_spinner :: spinner where
  "nosuch_spinner = demo_spinner\<lparr>command := Cmd_list [''no-such-program'']\<rparr>"

definition slow_spinner :: spinner where
  "slow_spinner = demo_spinner\<lparr>max_duration := Some 2\<rparr>"

definition late_poll :: world where
  "late_poll = (armed_world (calm_env 4242 100 0) slow_spinner demo_old)\<lparr>tick := 10\<rparr>"

definition sigint_env :: env where
  "sigint_env =
     (calm_env 4242 2 (W_EXITCODE 0 SIGINT))\<lparr>sig_at := (\<lambda>n. if n = 1 then [SIGINT] else [])\<rparr>"

definition race_env :: env where
  "race_env =
     (calm_env 4242 0 (W_EXITCODE 0 0))\<lparr>sig_at := (\<lambda>n. if n = 0 then [SIGINT] else [])\<rparr>"

definition grace_env :: env where
  "grace_env =
     (calm_env 4242 1 (W_EXITCODE 0 SIGTERM))\<lparr>sig_at := (\<lambda>n. if n = 1 then [SIGINT] else [])\<rparr>"

section \<open>Properties\<close>

subsection \<open>What every step preserves\<close>

lemma grows_by_refl: "grows_by P s s"
  by (simp add: grows_by_def)

lemma grows_by_trans: "grows_by P s t \<Longrightarrow> grows_by P t u \<Longrightarrow> grows_by P s u"
  by (auto simp: grows_by_def)

lemma grows_by_mono: "grows_by P s t \<Longrightarrow> (\<And>ev. P ev \<Longrightarrow> Q ev) \<Longrightarrow> grows_by Q s t"
  by (auto simp: grows_by_def list_all_iff)

lemma passes_refl: "passes s s"
  by (simp add: passes_def grows_by_refl)

lemma passes_trans: "passes s t \<Longrightarrow> passes t u \<Longrightarrow> passes s u"
  by (auto simp: passes_def intro: grows_by_trans)

lemma sys_event_simps:
  "sys_event (Kill p g)" "sys_event (Sleep d)" "sys_event (Waitpid a b c)" "sys_event (Stderr t)"
  by (simp_all add: sys_event_def)

lemma sys_event_silent: "sys_event ev \<Longrightarrow> silent ev"
  by (cases ev) (simp_all add: sys_event_def silent_def is_animation_def is_timeout_check_def)

lemma sys_event_body: "sys_event ev \<Longrightarrow> body_event ev"
  by (simp add: body_event_def)

lemma silent_simps:
  "silent (Set_signal g h)" "silent (Stdout show_seq)" "silent (Stdout [NL])"
  by (simp_all add: silent_def is_animation_def is_timeout_check_def show_seq_def
      spinner_glyphs_def NL_def BS_def ESC_def)

lemma passes_event:
  "sys_event ev \<Longrightarrow> passes s (s\<lparr>trace := trace s @ [ev]\<rparr>)"
  by (simp add: passes_def grows_by_def alive_def)

lemma os_kill_facts:
  "passes s (world_of (os_kill pid g s))"
  "thrown (os_kill pid g s) = (if alive s then None else Some ProcessLookupError)"
  "tick (world_of (os_kill pid g s)) = tick s"
  by (cases "child s"; simp add: os_kill_def passes_def grows_by_def alive_def sys_event_simps)+

lemma sig_handler_Done:
  "\<exists>s'. sig_handler pid g s = Done () s' \<and> passes s s' \<and> tick s' = tick s"
proof -
  let ?s1 = "s\<lparr>interrupted := True, signal_received := Some g\<rparr>"
  have 1: "passes s ?s1" by (simp add: passes_def grows_by_def alive_def)
  show ?thesis
  proof (cases "os_kill pid g ?s1")
    case (Done u s2)
    then show ?thesis
      using os_kill_facts(1,3) [where s = ?s1 and pid = pid and g = g] 1
      by (auto simp: sig_handler_def intro: passes_trans)
  next
    case (Throw x s2)
    then show ?thesis
      using os_kill_facts [where s = ?s1 and pid = pid and g = g] 1
      by (auto simp: sig_handler_def split: if_splits intro: passes_trans)
  qed
qed

lemma deliver_Done:
  "\<exists>s'. deliver gs s = Done () s' \<and> passes s s' \<and> tick s' = tick s"
proof (induction gs arbitrary: s)
  case Nil
  then show ?case by (simp add: passes_refl)
next
  case (Cons g gs)
  show ?case
  proof (cases "handlers s g")
    case (Previous h)
    then show ?thesis using Cons.IH [of s] by simp
  next
    case (Sig_handler pid)
    obtain s1 where 1: "sig_handler pid g s = Done () s1" "passes s s1" "tick s1 = tick s"
      using sig_handler_Done by blast
    obtain s2 where 2: "deliver gs s1 = Done () s2" "passes s1 s2" "tick s2 = tick s1"
      using Cons.IH [of s1] by blast
    show ?thesis using Sig_handler 1 2 by (auto intro: passes_trans)
  qed
qed

lemma child_progress_passes:
  "passes s (child_progress e n (s\<lparr>tick := Suc (tick s)\<rparr>))"
  "tick (child_progress e n (s\<lparr>tick := Suc (tick s)\<rparr>)) = Suc (tick s)"
  by (auto simp: child_progress_def passes_def grows_by_def alive_def
      split: proc.splits option.splits)

lemma env_point_Done:
  "\<exists>s'. env_point e s = Done () s' \<and> passes s s' \<and> tick s' = Suc (tick s)"
  using deliver_Done [of "sig_at e (tick s)" "child_progress e (tick s) (s\<lparr>tick := Suc (tick s)\<rparr>)"]
    child_progress_passes [where s = s and e = e and n = "tick s"]
  by (auto simp: env_point_def intro: passes_trans)

lemma checkpoint_facts:
  "passes s (world_of (checkpoint e s))"
  "tick (world_of (checkpoint e s)) = Suc (tick s)"
  "thrown (checkpoint e s) \<noteq> Some ProcessLookupError"
  "thrown (checkpoint e s) \<noteq> Some ChildProcessError"
  using env_point_Done [of e s]
  by (auto simp: checkpoint_def split: option.splits)

lemma py_sleep_facts:
  "passes s (world_of (py_sleep e d s))"
  "thrown (py_sleep e d s) \<noteq> Some ProcessLookupError"
proof -
  show "passes s (world_of (py_sleep e d s))"
    using checkpoint_facts(1) [where s = s and e = e] passes_event [of "Sleep d" "world_of (checkpoint e s)"]
    by (auto simp: py_sleep_def sys_event_simps split: result.splits intro: passes_trans)
  show "thrown (py_sleep e d s) \<noteq> Some ProcessLookupError"
    using checkpoint_facts(3) [where s = s and e = e]
    by (auto simp: py_sleep_def split: result.splits)
qed

lemma in_trace_passes:
  "passes s t \<Longrightarrow> ev \<in> set (trace s) \<Longrightarrow> ev \<in> set (trace t)"
  by (auto simp: passes_def grows_by_def)

lemma reaped_by_wait_passes:
  "passes s t \<Longrightarrow> reaped_by_wait pid s \<Longrightarrow> reaped_by_wait pid t"
  by (auto simp: reaped_by_wait_def passes_def grows_by_def)

lemma reap_facts:
  "grows_by sys_event s (world_of (reap pid options st s))"
  "reaped_by_wait pid (world_of (reap pid options st s))"
  "tick (world_of (reap pid options st s)) = tick s"
  "thrown (reap pid options st s) = None"
  by (simp_all add: reap_def grows_by_def reaped_by_wait_def waited_on_def sys_event_simps)

lemma waitpid_nohang_facts:
  "grows_by sys_event s (world_of (waitpid_nohang e pid s))"
  "thrown (waitpid_nohang e pid s) \<noteq> Some ProcessLookupError"
  "waitpid_nohang e pid s = Done (fp, st) t \<Longrightarrow>
     (fp = 0 \<and> alive t \<and> st = 0) \<or> (fp = pid \<and> reaped_by_wait pid t)"
  "child s = Reaped \<Longrightarrow> child (world_of (waitpid_nohang e pid s)) = Reaped"
proof -
  let ?r = "checkpoint e s"
  have p: "passes s (world_of ?r)" by (rule checkpoint_facts)
  show "grows_by sys_event s (world_of (waitpid_nohang e pid s))"
    using p
    by (auto simp: waitpid_nohang_def reap_def passes_def grows_by_def sys_event_simps
        split: result.splits proc.splits)
  show "thrown (waitpid_nohang e pid s) \<noteq> Some ProcessLookupError"
    using checkpoint_facts(3) [where e = e and s = s]
    by (auto simp: waitpid_nohang_def reap_def split: result.splits proc.splits)
  show "waitpid_nohang e pid s = Done (fp, st) t \<Longrightarrow>
     (fp = 0 \<and> alive t \<and> st = 0) \<or> (fp = pid \<and> reaped_by_wait pid t)"
    by (auto simp: waitpid_nohang_def reap_def alive_def reaped_by_wait_def waited_on_def
        split: result.splits proc.splits)
  show "child s = Reaped \<Longrightarrow> child (world_of (waitpid_nohang e pid s)) = Reaped"
    using p
    by (auto simp: waitpid_nohang_def reap_def passes_def split: result.splits proc.splits)
qed

lemma waitpid_block_facts:
  assumes "waitpid_block e pid s = Some r"
  shows "grows_by sys_event s (world_of r) \<and> thrown r \<noteq> Some ProcessLookupError
         \<and> (thrown r = None \<longrightarrow> reaped_by_wait pid (world_of r))
         \<and> (child s = Reaped \<longrightarrow> child (world_of r) = Reaped)"
proof (rule waitpid_block.raw_induct
    [where P = "\<lambda>e pid s r. grows_by sys_event s (world_of r) \<and> thrown r \<noteq> Some ProcessLookupError
         \<and> (thrown r = None \<longrightarrow> reaped_by_wait pid (world_of r))
         \<and> (child s = Reaped \<longrightarrow> child (world_of r) = Reaped)", OF _ assms])
  fix wb e pid s r
  assume IH: "\<And>e pid s r. wb e pid s = Some r \<Longrightarrow>
         grows_by sys_event s (world_of r) \<and> thrown r \<noteq> Some ProcessLookupError
         \<and> (thrown r = None \<longrightarrow> reaped_by_wait pid (world_of r))
         \<and> (child s = Reaped \<longrightarrow> child (world_of r) = Reaped)"
    and step: "(case checkpoint e s of
        Done u s1 \<Rightarrow>
          (case child s1 of Running \<Rightarrow> wb e pid s1
           | Zombie st \<Rightarrow> Some (reap pid 0 st s1)
           | _ \<Rightarrow> Some (Throw ChildProcessError s1))
      | Throw x s1 \<Rightarrow> Some (Throw x s1)) = Some r"
  have p: "passes s (world_of (checkpoint e s))" by (rule checkpoint_facts)
  have np: "thrown (checkpoint e s) \<noteq> Some ProcessLookupError" by (rule checkpoint_facts)
  show "grows_by sys_event s (world_of r) \<and> thrown r \<noteq> Some ProcessLookupError
         \<and> (thrown r = None \<longrightarrow> reaped_by_wait pid (world_of r))
         \<and> (child s = Reaped \<longrightarrow> child (world_of r) = Reaped)"
  proof (cases "checkpoint e s")
    case (Throw x s1)
    then show ?thesis using step p np by (auto simp: passes_def)
  next
    case (Done u s1)
    note D = this
    show ?thesis
    proof (cases "child s1")
      case Running
      then have "wb e pid s1 = Some r" using step D by simp
      from IH [OF this] p D Running show ?thesis
        by (auto simp: passes_def intro: grows_by_trans)
    next
      case (Zombie st)
      then have "r = reap pid 0 st s1" using step D by simp
      then show ?thesis using p D Zombie reap_facts [where s = s1 and pid = pid and options = 0 and st = st]
        by (auto simp: passes_def intro: grows_by_trans)
    next
      case No_child
      then show ?thesis using step D p by (auto simp: passes_def)
    next
      case Reaped
      then show ?thesis using step D p by (auto simp: passes_def)
    qed
  qed
qed

lemma print_err_passes: "passes s (print_err t s)"
  by (simp add: print_err_def passes_event sys_event_simps)

lemma interrupted_path_facts:
  assumes "interrupted_path e pid s = Some (out, s')"
  shows "grows_by sys_event s s'"
    and "(\<exists>v. out = Return v) \<or> (\<exists>x. out = Raised x)"
    and "out = Return v \<Longrightarrow> reaped_by_wait pid s'"
proof -
  have p1: "passes s (world_of (py_sleep e (1 / 10) s))" by (rule py_sleep_facts)
  show "grows_by sys_event s s'"
  proof (cases "py_sleep e (1 / 10) s")
    case (Throw x s1)
    then show ?thesis using assms p1 by (auto simp: interrupted_path_def passes_def)
  next
    case (Done u s1)
    then obtain r where r: "waitpid_block e pid s1 = Some r"
      using assms by (auto simp: interrupted_path_def split: option.splits)
    from waitpid_block_facts [OF r] have g: "grows_by sys_event s1 (world_of r)" by simp
    have "grows_by sys_event s s1" using p1 Done by (simp add: passes_def)
    with g have gg: "grows_by sys_event s (world_of r)" by (blast intro: grows_by_trans)
    show ?thesis
      using assms Done r gg print_err_passes
      by (auto simp: interrupted_path_def passes_def split: result.splits option.splits
          intro: grows_by_trans)
  qed
  show "(\<exists>v. out = Return v) \<or> (\<exists>x. out = Raised x)"
    using assms
    by (auto simp: interrupted_path_def split: result.splits option.splits)
  show "out = Return v \<Longrightarrow> reaped_by_wait pid s'"
  proof -
    assume ret: "out = Return v"
    show ?thesis
    proof (cases "py_sleep e (1 / 10) s")
      case (Throw x s1)
      then show ?thesis using assms ret by (auto simp: interrupted_path_def)
    next
      case (Done u s1)
      then obtain r where r: "waitpid_block e pid s1 = Some r"
        using assms by (auto simp: interrupted_path_def split: option.splits)
      from waitpid_block_facts [OF r]
      have g: "thrown r = None \<longrightarrow> reaped_by_wait pid (world_of r)" by simp
      show ?thesis
        using assms Done r g ret reaped_by_wait_passes [OF print_err_passes]
        by (auto simp: interrupted_path_def split: result.splits option.splits)
    qed
  qed
qed

lemma timeout_path_facts:
  assumes "timeout_path e pid s = Some (out, s')"
  shows "grows_by sys_event s s'"
    and "(\<exists>v. out = Return v) \<or> (\<exists>x. out = Raised x)"
    and "out = Return v \<Longrightarrow> reaped_by_wait pid s'"
proof -
  let ?s1 = "print_err (NL # ''Process timed out.'') s"
  have g1: "grows_by sys_event s ?s1" using print_err_passes by (simp add: passes_def)
  let ?k = "os_kill pid SIGTERM ?s1"
  have g2: "grows_by sys_event ?s1 (world_of ?k)" using os_kill_facts(1) by (simp add: passes_def)
  have all: "grows_by sys_event s s' \<and> ((\<exists>v. out = Return v) \<or> (\<exists>x. out = Raised x))
      \<and> (out = Return v \<longrightarrow> reaped_by_wait pid s')"
  proof (cases ?k)
    case (Throw x s2)
    then show ?thesis using assms g1 g2 by (auto simp: timeout_path_def intro: grows_by_trans)
  next
    case k: (Done u s2)
    have g02: "grows_by sys_event s s2" using g1 g2 k by (auto intro: grows_by_trans)
    let ?sl = "py_sleep e 1 s2"
    have g3: "grows_by sys_event s2 (world_of ?sl)" using py_sleep_facts(1) by (simp add: passes_def)
    show ?thesis
    proof (cases ?sl)
      case (Throw x s3)
      then show ?thesis using assms k g02 g3
        by (auto simp: timeout_path_def intro: grows_by_trans)
    next
      case sl: (Done u3 s3)
      have g03: "grows_by sys_event s s3" using g02 g3 sl by (auto intro: grows_by_trans)
      let ?w = "waitpid_nohang e pid s3"
      have g4: "grows_by sys_event s3 (world_of ?w)" by (rule waitpid_nohang_facts)
      have n4: "thrown ?w \<noteq> Some ProcessLookupError" by (rule waitpid_nohang_facts)
      show ?thesis
      proof (cases ?w)
        case (Throw x s4)
        then have "x \<noteq> ProcessLookupError" using n4 by auto
        then show ?thesis using assms k sl Throw g03 g4
          by (cases x) (auto simp: timeout_path_def intro: grows_by_trans)
      next
        case w: (Done r4 s4)
        obtain fp st where r4: "r4 = (fp, st)" by (cases r4)
        have g04: "grows_by sys_event s s4" using g03 g4 w by (auto intro: grows_by_trans)
        have c4: "(fp = 0 \<and> alive s4 \<and> st = 0) \<or> (fp = pid \<and> reaped_by_wait pid s4)"
          using waitpid_nohang_facts(3) w r4 by blast
        show ?thesis
        proof (cases "fp = 0")
          case False
          then show ?thesis using assms k sl w r4 g04 c4
            by (auto simp: timeout_path_def)
        next
          case True
          let ?k2 = "os_kill pid SIGKILL s4"
          have g5: "passes s4 (world_of ?k2)" by (rule os_kill_facts)
          show ?thesis
          proof (cases ?k2)
            case (Throw x s5)
            then have x: "x = ProcessLookupError" "\<not> alive s4" "s5 = s4"
              using os_kill_facts(2) [where s = s4 and pid = pid and g = SIGKILL]
              by (auto split: if_splits simp: os_kill_def split: proc.splits)
            then show ?thesis using assms k sl w r4 g04 c4 True Throw
              by (auto simp: timeout_path_def)
          next
            case k2: (Done u5 s5)
            have g05: "grows_by sys_event s s5" using g04 g5 k2
              by (auto simp: passes_def intro: grows_by_trans)
            obtain r where r: "waitpid_block e pid s5 = Some r"
              using assms k sl w r4 True k2
              by (auto simp: timeout_path_def split: option.splits)
            note f = waitpid_block_facts [OF r]
            have g06: "grows_by sys_event s (world_of r)" using g05 f by (auto intro: grows_by_trans)
            show ?thesis
            proof (cases r)
              case (Throw x s6)
              then have "x \<noteq> ProcessLookupError" using f by auto
              then show ?thesis using assms k sl w r4 True k2 r Throw g06
                by (cases x) (auto simp: timeout_path_def)
            next
              case (Done r6 s6)
              then show ?thesis using assms k sl w r4 True k2 r g06 f
                by (auto simp: timeout_path_def)
            qed
          qed
        qed
      qed
    qed
  qed
  from all show "grows_by sys_event s s'" by simp
  from all show "(\<exists>v. out = Return v) \<or> (\<exists>x. out = Raised x)" by simp
  from all show "out = Return v \<Longrightarrow> reaped_by_wait pid s'" by simp
qed

lemma grows_by_body: "grows_by sys_event s t \<Longrightarrow> grows_by body_event s t"
  by (erule grows_by_mono) (rule sys_event_body)

lemma grows_by_body_event:
  "body_event ev \<Longrightarrow> grows_by body_event s (s\<lparr>trace := trace s @ [ev]\<rparr>)"
  by (simp add: grows_by_def)

lemma glyph_in_spinner:
  "spinner_glyphs ! (i mod length spinner_glyphs) \<in> set spinner_glyphs"
  by (rule nth_mem) (simp add: spinner_glyphs_def)

lemma body_event_simps:
  "body_event (Clock_read t)" "body_event (Stdout [BS])"
  "body_event (Stdout [spinner_glyphs ! (i mod length spinner_glyphs)])"
  using glyph_in_spinner [of i]
  by (simp_all add: body_event_def is_timeout_check_def is_animation_def)

lemma clock_checked_grows: "grows_by body_event s (clock_checked e sp s)"
  by (cases "max_duration sp")
    (simp_all add: clock_checked_def grows_by_def body_event_simps)

lemma poll_loop_facts:
  assumes "poll_loop e sp pid start i s = Some y"
  shows "loop_post pid s y"
proof (rule poll_loop.raw_induct
    [where P = "\<lambda>e sp pid start i s y. loop_post pid s y", OF _ assms])
  fix pl e sp pid start i s y
  assume IH: "\<And>e sp pid start i s y. pl e sp pid start i s = Some y \<Longrightarrow> loop_post pid s y"
    and step: "(if interrupted s then interrupted_path e pid s
      else case waitpid_nohang e pid s of
           Done (finished_pid, status) s1 \<Rightarrow>
             if finished_pid \<noteq> 0
             then Some (Return (exit_code_of status), s1)
             else if timed_out e sp start s1
                  then timeout_path e pid (clock_checked e sp s1)
                  else case py_sleep e (2 / 10)
                             (print_out
                               [spinner_glyphs ! (i mod length spinner_glyphs)]
                               (clock_checked e sp s1)) of
                       Done u s2 \<Rightarrow> pl e sp pid start (i + 1) (print_out [BS] s2)
                       | Throw x s2 \<Rightarrow> Some (Raised x, s2)
           | Throw x s1 \<Rightarrow> Some (Raised x, s1)) = Some y"
  obtain out s' where y: "y = (out, s')" by (cases y)
  show "loop_post pid s y"
  proof (cases "interrupted s")
    case True
    then have "interrupted_path e pid s = Some (out, s')" using step y by simp
    from interrupted_path_facts [OF this] show ?thesis
      by (auto simp: loop_post_def y intro: grows_by_body)
  next
    case False
    let ?w = "waitpid_nohang e pid s"
    have gw: "grows_by body_event s (world_of ?w)"
      using waitpid_nohang_facts(1) by (rule grows_by_body)
    show ?thesis
    proof (cases ?w)
      case (Throw x s1)
      then show ?thesis using step False gw by (auto simp: loop_post_def)
    next
      case w: (Done r s1)
      obtain fp st where r: "r = (fp, st)" by (cases r)
      have g1: "grows_by body_event s s1" using gw w by simp
      have c: "(fp = 0 \<and> alive s1 \<and> st = 0) \<or> (fp = pid \<and> reaped_by_wait pid s1)"
        using waitpid_nohang_facts(3) w r by blast
      show ?thesis
      proof (cases "fp = 0")
        case fp: False
        then show ?thesis using step False w r g1 c by (auto simp: loop_post_def)
      next
        case fp: True
        let ?c = "clock_checked e sp s1"
        have g2: "grows_by body_event s ?c"
          using g1 clock_checked_grows by (rule grows_by_trans)
        show ?thesis
        proof (cases "timed_out e sp start s1")
          case True
          then have "timeout_path e pid ?c = Some (out, s')"
            using step False w r fp y by simp
          from timeout_path_facts [OF this] g2 show ?thesis
            by (auto simp: loop_post_def y intro: grows_by_body grows_by_trans)
        next
          case nt: False
          let ?p = "print_out [spinner_glyphs ! (i mod length spinner_glyphs)] ?c"
          have g3: "grows_by body_event s ?p"
            using g2 grows_by_body_event [OF body_event_simps(3), of ?c] unfolding print_out_def
            by (rule grows_by_trans)
          let ?sl = "py_sleep e (2 / 10) ?p"
          have "grows_by body_event ?p (world_of ?sl)"
            using py_sleep_facts(1) [where s = ?p] by (auto simp: passes_def intro: grows_by_body)
          with g3 have g4: "grows_by body_event s (world_of ?sl)"
            by (blast intro: grows_by_trans)
          show ?thesis
          proof (cases ?sl)
            case (Throw x s2)
            then show ?thesis using step False w r fp nt g4 by (auto simp: loop_post_def)
          next
            case (Done u s2)
            then have rec: "pl e sp pid start (i + 1) (print_out [BS] s2) = Some y"
              using step False w r fp nt by simp
            have "grows_by body_event s (print_out [BS] s2)"
              using g4 Done grows_by_body_event [OF body_event_simps(2), of s2] unfolding print_out_def
              by (auto intro: grows_by_trans)
            with IH [OF rec] show ?thesis
              by (auto simp: loop_post_def intro: grows_by_trans)
          qed
        qed
      qed
    qed
  qed
qed

lemma finally_block_facts:
  "\<exists>s1. passes s s1 \<and> tick s1 = Suc (tick s) \<and> env_point e s = Done () s1 \<and>
     finally_block e olds out s =
       (out, s1\<lparr>trace := trace s1 @ finally_events olds, handlers := restored olds (handlers s)\<rparr>)"
proof -
  obtain s1 where 1: "env_point e s = Done () s1" "passes s s1" "tick s1 = Suc (tick s)"
    using env_point_Done by blast
  then have h: "handlers s1 = handlers s" by (simp add: passes_def grows_by_def)
  obtain a b c where olds: "olds = (a, b, c)" by (cases olds)
  show ?thesis
    using 1 h
    by (simp add: finally_block_def olds py_signal_def show_cursor_def print_out_def
        finally_events_def restored_def Let_def)
qed

lemma spin_parent:
  "fork_ret e \<noteq> 0 \<Longrightarrow>
   spin e sp old =
     supervise e sp (fork_ret e) (clock_at e 0) (old_handlers old) 0 (armed_world e sp old)"
  by (simp add: spin_def Let_def install_handlers_def py_signal_def initial_world_def
      hide_cursor_def print_out_def monotonic_def armed_world_def old_handlers_def
      SIGINT_def SIGTERM_def SIGQUIT_def)

lemma spin_child:
  "fork_ret e = 0 \<Longrightarrow>
   spin e sp old =
     Some (child_branch e (normalize_command (command sp))
             (hide_cursor (print_out (wait_message sp) (initial_world old))))"
  by (simp add: spin_def Let_def)

lemma child_branch_never_leaves: "\<not> leaves_spin (fst (child_branch e argv s))"
  by (simp add: child_branch_def split: option.splits)


lemma supervise_facts:
  assumes "supervise e sp pid start olds i s = Some (out, s')"
  shows "\<exists>s1 s2. poll_loop e sp pid start i s = Some (out, s1) \<and> loop_post pid s (out, s1)
           \<and> passes s1 s2
           \<and> s' = s2\<lparr>trace := trace s2 @ finally_events olds,
                      handlers := restored olds (handlers s1)\<rparr>"
proof -
  obtain out1 s1 where 1: "poll_loop e sp pid start i s = Some (out1, s1)"
    using assms by (auto simp: supervise_def split: option.splits)
  obtain s2 where 2: "passes s1 s2"
    "finally_block e olds out1 s1 =
       (out1, s2\<lparr>trace := trace s2 @ finally_events olds, handlers := restored olds (handlers s1)\<rparr>)"
    using finally_block_facts by blast
  have "out1 = out" "s' = s2\<lparr>trace := trace s2 @ finally_events olds, handlers := restored olds (handlers s1)\<rparr>"
    using assms 1 2 by (auto simp: supervise_def)
  then show ?thesis using 1 2 poll_loop_facts [OF 1] by auto
qed

subsection \<open>Evaluating runs\<close>

lemmas run_defs = spin_def supervise_def finally_block_def install_handlers_def py_signal_def
  initial_world_def wait_message_def normalize_command_def print_out_def print_err_def
  hide_cursor_def show_cursor_def waitpid_nohang_def checkpoint_def env_point_def
  child_progress_def py_sleep_def monotonic_def timed_out_def clock_checked_def reap_def
  exit_code_of_def WIFEXITED_def WEXITSTATUS_def WTERMSIG_def WIFSIGNALED_def
  interrupted_path_def timeout_path_def os_kill_def sig_handler_def Let_def

lemma demo_run:
  "\<exists>s'. spin (calm_env 4242 1 768) demo_spinner demo_old = Some (Return 3, s')
     \<and> trace s' =
       [Stdout ''Hehe Waitin '', Stdout hide_seq,
        Set_signal SIGINT (Sig_handler 4242), Set_signal SIGTERM (Sig_handler 4242),
        Set_signal SIGQUIT (Sig_handler 4242),
        Waitpid WNOHANG 0 0, Stdout ''-'', Sleep (2 / 10), Stdout [BS],
        Waitpid WNOHANG 4242 768,
        Set_signal SIGINT (Previous (Callable 0)), Set_signal SIGTERM (Previous SIG_DFL),
        Set_signal SIGQUIT (Previous SIG_DFL), Stdout show_seq, Stdout [NL]]"
  by (simp add: run_defs poll_loop.simps calm_env_def demo_spinner_def demo_old_def
      spinner_glyphs_def SIGINT_def SIGTERM_def SIGQUIT_def)

subsection \<open>The child is reaped\<close>

text \<open>
  Claim C4. Whenever \<^verbatim>\<open>spin\<close> returns a value, on whichever path (the loop saw the
  child finished, an interruption was drained, the timeout escalated), the child has
  been reaped: its process state is \<open>Reaped\<close> and the trace holds a \<^verbatim>\<open>waitpid\<close> call,
  blocking or not, that returned the child's pid.
\<close>

theorem child_reaped_before_return:
  assumes "spin e sp old = Some (Return v, s')"
  shows "child s' = Reaped \<and> list_ex (waited_on (fork_ret e)) (trace s')"
proof -
  have pid: "fork_ret e \<noteq> 0"
  proof
    assume "fork_ret e = 0"
    then have "\<not> leaves_spin (Return v)"
      using assms child_branch_never_leaves
        [of e "normalize_command (command sp)"
            "hide_cursor (print_out (wait_message sp) (initial_world old))"]
      by (simp add: spin_child)
    then show False by simp
  qed
  from supervise_facts [OF assms [unfolded spin_parent [OF pid]]]
  obtain s1 s2 where 1: "loop_post (fork_ret e) (armed_world e sp old) (Return v, s1)"
    "passes s1 s2"
    "s' = s2\<lparr>trace := trace s2 @ finally_events (old_handlers old),
                handlers := restored (old_handlers old) (handlers s1)\<rparr>"
    by blast
  from 1(1) pid have "reaped_by_wait (fork_ret e) s1" by (simp add: loop_post_def)
  with 1(2) have "reaped_by_wait (fork_ret e) s2" by (blast intro: reaped_by_wait_passes)
  then show ?thesis using 1(3) by (simp add: reaped_by_wait_def)
qed

theorem child_reaped_before_return_witness:
  "\<exists>s'. spin (calm_env 4242 1 768) demo_spinner demo_old = Some (Return 3, s')
     \<and> child s' = Reaped \<and> list_ex (waited_on 4242) (trace s')"
proof -
  obtain s' where run: "spin (calm_env 4242 1 768) demo_spinner demo_old = Some (Return 3, s')"
    using demo_run by blast
  from child_reaped_before_return [OF run] run show ?thesis
    by (simp add: calm_env_def)
qed

lemma list_all_silent_finally: "list_all silent (finally_events olds)"
  by (cases olds) (simp add: finally_events_def silent_simps)

lemma grows_by_silent: "grows_by sys_event s t \<Longrightarrow> grows_by silent s t"
  by (erule grows_by_mono) (rule sys_event_silent)

subsection \<open>Restoring handlers and cursor\<close>


lemma faulty_run:
  "\<exists>s'. spin faulty_env demo_spinner demo_old = Some (Raised (Internal_error ''boom''), s')"
  by (simp add: run_defs poll_loop.simps calm_env_def faulty_env_def demo_spinner_def
      demo_old_def spinner_glyphs_def SIGINT_def SIGTERM_def SIGQUIT_def)


subsection \<open>After an interruption has been seen\<close>

text \<open>
  Claim C8. Take any iteration of the polling loop that starts with \<^verbatim>\<open>interrupted\<close>
  set. If the call ends, then nothing that is appended to the trace from there on, up to
  and including the \<^verbatim>\<open>finally\<close> block, is an animation output (a glyph or the erasing
  backspace) or a reading of the clock for the timeout check.
\<close>

theorem interrupt_stops_animation_and_timeout:
  assumes "supervise e sp pid start olds i s = Some (out, s')" and "interrupted s"
  shows "\<exists>evs. trace s' = trace s @ evs
          \<and> list_all (\<lambda>ev. \<not> is_animation ev \<and> \<not> is_timeout_check ev) evs"
proof -
  from supervise_facts [OF assms(1)]
  obtain s1 s2 where 1: "poll_loop e sp pid start i s = Some (out, s1)" "passes s1 s2"
    "s' = s2\<lparr>trace := trace s2 @ finally_events olds,
                handlers := restored olds (handlers s1)\<rparr>"
    by blast
  from 1(1) assms(2) have "interrupted_path e pid s = Some (out, s1)"
    by (simp add: poll_loop.simps)
  from interrupted_path_facts(1) [OF this] have "grows_by silent s s1"
    by (rule grows_by_silent)
  moreover from 1(2) have "grows_by silent s1 s2"
    by (simp add: passes_def grows_by_silent)
  ultimately have "grows_by silent s s2" by (rule grows_by_trans)
  then obtain evs where evs: "trace s2 = trace s @ evs" "list_all silent evs"
    by (auto simp: grows_by_def)
  have "trace s' = trace s @ (evs @ finally_events olds)"
    using 1(3) evs by simp
  moreover have "list_all silent (evs @ finally_events olds)"
    using evs list_all_silent_finally by simp
  ultimately show ?thesis
    unfolding silent_def [abs_def] by blast
qed

lemma seen_interrupt_run:
  "\<exists>s'. supervise (calm_env 4242 1 2) demo_spinner 4242 0 (old_handlers demo_old) 3 seen_interrupt
          = Some (Return 130, s')"
  by (simp add: run_defs poll_loop.simps waitpid_block.simps calm_env_def demo_spinner_def
      demo_old_def seen_interrupt_def armed_world_def old_handlers_def
      SIGINT_def SIGTERM_def SIGQUIT_def)

theorem interrupt_stops_animation_and_timeout_witness:
  "\<exists>s'. supervise (calm_env 4242 1 2) demo_spinner 4242 0 (old_handlers demo_old) 3 seen_interrupt
          = Some (Return 130, s')
     \<and> interrupted seen_interrupt
     \<and> (\<exists>evs. trace s' = trace seen_interrupt @ evs
          \<and> list_all (\<lambda>ev. \<not> is_animation ev \<and> \<not> is_timeout_check ev) evs)"
proof -
  obtain s' where run:
    "supervise (calm_env 4242 1 2) demo_spinner 4242 0 (old_handlers demo_old) 3 seen_interrupt
       = Some (Return 130, s')"
    using seen_interrupt_run by blast
  have i: "interrupted seen_interrupt" by (simp add: seen_interrupt_def)
  from interrupt_stops_animation_and_timeout [OF run i] run i show ?thesis by simp
qed

subsection \<open>The start of the call\<close>

text \<open>
  Claim C9, as amended. Every call that ends has printed the wait message (followed by a
  space) first and the hide-cursor sequence second: the message is emitted before the
  cursor is hidden, not after.
\<close>

theorem wait_message_then_hide_cursor:
  assumes "spin e sp old = Some (out, s')"
  shows "(\<exists>rest. trace s' = Stdout (wait_message sp) # Stdout hide_seq # rest)
     \<and> emitted_before (Stdout (wait_message sp)) (Stdout hide_seq) (trace s')"
proof -
  have ne: "wait_message sp \<noteq> hide_seq"
  proof
    assume "wait_message sp = hide_seq"
    then have "last (wait_message sp) = last hide_seq" by simp
    then show False by (simp add: wait_message_def hide_seq_def)
  qed
  have "\<exists>rest. trace s' = Stdout (wait_message sp) # Stdout hide_seq # rest"
  proof (cases "fork_ret e = 0")
    case True
    then show ?thesis using assms
      by (auto simp: spin_child child_branch_def hide_cursor_def print_out_def print_err_def
          initial_world_def split: option.splits)
  next
    case False
    from supervise_facts [OF assms [unfolded spin_parent [OF False]]]
    obtain s1 s2 where 1: "loop_post (fork_ret e) (armed_world e sp old) (out, s1)"
      "passes s1 s2"
      "s' = s2\<lparr>trace := trace s2 @ finally_events (old_handlers old),
                  handlers := restored (old_handlers old) (handlers s1)\<rparr>"
      by blast
    from 1(1) obtain evs where "trace s1 = trace (armed_world e sp old) @ evs"
      by (auto simp: loop_post_def grows_by_def)
    moreover from 1(2) obtain evs' where "trace s2 = trace s1 @ evs'"
      by (auto simp: passes_def grows_by_def)
    ultimately show ?thesis using 1(3) by (simp add: armed_world_def)
  qed
  then show ?thesis using ne by (auto simp: emitted_before_def)
qed

theorem wait_message_then_hide_cursor_witness:
  "\<exists>s'. spin (calm_env 4242 1 768) demo_spinner demo_old = Some (Return 3, s')
     \<and> (\<exists>rest. trace s' = Stdout (wait_message demo_spinner) # Stdout hide_seq # rest)
     \<and> emitted_before (Stdout (wait_message demo_spinner)) (Stdout hide_seq) (trace s')"
proof -
  obtain s' where run: "spin (calm_env 4242 1 768) demo_spinner demo_old = Some (Return 3, s')"
    using demo_run by blast
  from wait_message_then_hide_cursor [OF run] run show ?thesis by simp
qed

text \<open>
  The claim as it was stated fails on the run of \<^verbatim>\<open>Spinner(["sleep", "5"], "Hehe Waitin")\<close>
  whose child exits with code 3: the first event is the wait message, the second the
  hide-cursor sequence, so the sequence is not emitted before the message.
\<close>

theorem hide_cursor_first_counterexample:
  "run_outcome (spin (calm_env 4242 1 768) demo_spinner demo_old) = Some (Return 3)
     \<and> run_trace (spin (calm_env 4242 1 768) demo_spinner demo_old) ! 0 = Stdout ''Hehe Waitin ''
     \<and> run_trace (spin (calm_env 4242 1 768) demo_spinner demo_old) ! 1 = Stdout hide_seq
     \<and> \<not> emitted_before (Stdout hide_seq) (Stdout (wait_message demo_spinner))
           (run_trace (spin (calm_env 4242 1 768) demo_spinner demo_old))"
proof -
  obtain s' where run: "spin (calm_env 4242 1 768) demo_spinner demo_old = Some (Return 3, s')"
    and tr: "trace s' =
       [Stdout ''Hehe Waitin '', Stdout hide_seq,
        Set_signal SIGINT (Sig_handler 4242), Set_signal SIGTERM (Sig_handler 4242),
        Set_signal SIGQUIT (Sig_handler 4242),
        Waitpid WNOHANG 0 0, Stdout ''-'', Sleep (2 / 10), Stdout [BS],
        Waitpid WNOHANG 4242 768,
        Set_signal SIGINT (Previous (Callable 0)), Set_signal SIGTERM (Previous SIG_DFL),
        Set_signal SIGQUIT (Previous SIG_DFL), Stdout show_seq, Stdout [NL]]"
    using demo_run by blast
  show ?thesis
    using run tr
    by (simp add: emitted_before_def wait_message_def demo_spinner_def run_trace_def
        run_outcome_def)
qed

subsection \<open>A command given as one string\<close>

text \<open>
  Claim C10. When the field \<^verbatim>\<open>command\<close> holds a single string, the argument vector is
  the one-element list of that string: the child calls \<^verbatim>\<open>execvp\<close> with the string as
  the file and as the only argument, and if that call succeeds the child has become
  that command. The string is neither rejected nor split.
\<close>

theorem string_command_is_one_element_argv:
  assumes "command sp = Cmd_str c" and "fork_ret e = 0"
  shows "normalize_command (command sp) = [c]
     \<and> try_execvp e (normalize_command (command sp)) = execvp_error e c [c]
     \<and> (execvp_error e c [c] = None \<longrightarrow>
          (\<exists>s'. spin e sp old = Some (Child_exec [c], s') \<and> last (trace s') = Exec c [c]))"
  using assms
  by (simp add: normalize_command_def try_execvp_def spin_child child_branch_def)

theorem string_command_is_one_element_argv_witness:
  "command (demo_spinner\<lparr>command := Cmd_str ''ls -l''\<rparr>) = Cmd_str ''ls -l''
     \<and> fork_ret (calm_env 0 1 0) = 0
     \<and> normalize_command (command (demo_spinner\<lparr>command := Cmd_str ''ls -l''\<rparr>)) = [''ls -l'']
     \<and> execvp_error (calm_env 0 1 0) ''ls -l'' [''ls -l''] = None
     \<and> (\<exists>s'. spin (calm_env 0 1 0) (demo_spinner\<lparr>command := Cmd_str ''ls -l''\<rparr>) demo_old
                 = Some (Child_exec [''ls -l''], s')
             \<and> last (trace s') = Exec ''ls -l'' [''ls -l''])"
proof -
  have c: "command (demo_spinner\<lparr>command := Cmd_str ''ls -l''\<rparr>) = Cmd_str ''ls -l''" by simp
  have f: "fork_ret (calm_env 0 1 0) = 0" by (simp add: calm_env_def)
  have x: "execvp_error (calm_env 0 1 0) ''ls -l'' [''ls -l''] = None" by (simp add: calm_env_def)
  from string_command_is_one_element_argv [OF c f, of demo_old] c f x show ?thesis by simp
qed

lemma checkpoint_calm:
  "calm e \<Longrightarrow> checkpoint e s = Done () (child_progress e (tick s) (s\<lparr>tick := Suc (tick s)\<rparr>))"
  by (simp add: checkpoint_def env_point_def calm_def)

lemma env_point_calm:
  "calm e \<Longrightarrow> env_point e s = Done () (child_progress e (tick s) (s\<lparr>tick := Suc (tick s)\<rparr>))"
  by (simp add: env_point_def calm_def)

lemma never_times_out_D:
  "never_times_out e sp start m \<Longrightarrow> tick s \<le> m \<Longrightarrow> \<not> timed_out e sp start s"
  by (cases "max_duration sp") (simp_all add: never_times_out_def timed_out_def monotonic_def not_le)

lemma child_progress_zombie:
  "child s = Zombie st \<Longrightarrow> child_progress e n s = s"
  by (simp add: child_progress_def)

lemma child_progress_running:
  "child s = Running \<Longrightarrow>
   child_progress e n s = (case child_exit_at e n of Some st \<Rightarrow> s\<lparr>child := Zombie st\<rparr> | None \<Rightarrow> s)"
  by (simp add: child_progress_def)

lemma first_exit_step:
  "first_exit e n m st \<Longrightarrow> n \<noteq> m \<Longrightarrow> first_exit e (Suc n) m st"
  "first_exit e n m st \<Longrightarrow> n \<noteq> m \<Longrightarrow> child_exit_at e n = None"
  "first_exit e n m st \<Longrightarrow> n \<noteq> m \<Longrightarrow> n < m"
  "first_exit e n n st \<Longrightarrow> child_exit_at e n = Some st"
  by (simp_all add: first_exit_def)


lemma child_progress_fields:
  "tick (child_progress e n s) = tick s" "trace (child_progress e n s) = trace s"
  "interrupted (child_progress e n s) = interrupted s"
  "signal_received (child_progress e n s) = signal_received s"
  "handlers (child_progress e n s) = handlers s"
  by (simp_all add: child_progress_def split: proc.splits option.splits)

lemma fate_step:
  assumes "fate e s m st"
  shows "fate e (child_progress e (tick s) (s\<lparr>tick := Suc (tick s)\<rparr>)) m st"
proof (cases "child s = Running \<and> tick s \<noteq> m")
  case True
  then have "first_exit e (tick s) m st" using assms by (auto simp: fate_def)
  from first_exit_step(1,2) [OF this] True show ?thesis
    by (simp add: fate_def child_progress_def)
next
  case False
  then show ?thesis using assms first_exit_step(4) [of e m st]
    by (auto simp: fate_def child_progress_def)
qed

lemma fate_cong:
  "child t = child s \<Longrightarrow> tick t = tick s \<Longrightarrow> fate e t m st = fate e s m st"
  by (simp add: fate_def)

lemma fate_running_less: "fate e s m st \<Longrightarrow> child s = Running \<Longrightarrow> tick s \<le> m"
  by (auto simp: fate_def first_exit_def)

lemma py_sleep_calm:
  "calm e \<Longrightarrow>
   py_sleep e d s =
     Done () ((child_progress e (tick s) (s\<lparr>tick := Suc (tick s)\<rparr>))
               \<lparr>trace := trace s @ [Sleep d]\<rparr>)"
  by (simp add: py_sleep_def checkpoint_calm child_progress_fields)

lemma clock_checked_fields:
  "tick (clock_checked e sp s) = tick s" "child (clock_checked e sp s) = child s"
  "interrupted (clock_checked e sp s) = interrupted s"
  "signal_received (clock_checked e sp s) = signal_received s"
  by (simp_all add: clock_checked_def split: option.splits)

lemma poll_loop_calm:
  assumes "calm e" and "pid \<noteq> 0" and "never_times_out e sp start m"
    and "\<not> interrupted s" and "fate e s m st"
  shows "\<exists>s'. poll_loop e sp pid start i s = Some (Return (exit_code_of st), s')"
  using assms(4,5)
proof (induction "m - tick s" arbitrary: s i rule: less_induct)
  case less
  let ?s1 = "child_progress e (tick s) (s\<lparr>tick := Suc (tick s)\<rparr>)"
  have f1: "fate e ?s1 m st" using less.prems(2) by (rule fate_step)
  have t1: "tick ?s1 = Suc (tick s)" and i1: "\<not> interrupted ?s1"
    using less.prems(1) by (simp_all add: child_progress_fields)
  show ?case
  proof (cases "child ?s1 = Running")
    case False
    then have z: "child ?s1 = Zombie st" using f1 by (simp add: fate_def)
    have "waitpid_nohang e pid s = reap pid WNOHANG st ?s1"
      using z by (simp add: waitpid_nohang_def checkpoint_calm [OF assms(1)])
    then show ?thesis
      using less.prems(1) assms(2)
      by (subst poll_loop.simps) (simp add: reap_def)
  next
    case True
    let ?s2 = "?s1\<lparr>trace := trace ?s1 @ [Waitpid WNOHANG 0 0]\<rparr>"
    have w: "waitpid_nohang e pid s = Done (0, 0) ?s2"
      using True by (simp add: waitpid_nohang_def checkpoint_calm [OF assms(1)])
    let ?p = "print_out [spinner_glyphs ! (i mod length spinner_glyphs)] (clock_checked e sp ?s2)"
    let ?s3 = "(child_progress e (tick ?p) (?p\<lparr>tick := Suc (tick ?p)\<rparr>))
                 \<lparr>trace := trace ?p @ [Sleep (2 / 10)]\<rparr>"
    have sl: "py_sleep e (2 / 10) ?p = Done () ?s3"
      by (rule py_sleep_calm [OF assms(1)])
    have fp: "fate e ?p m st"
      using f1 by (simp add: fate_def print_out_def clock_checked_fields)
    have f3: "fate e (print_out [BS] ?s3) m st"
      using fate_step [OF fp] by (simp add: fate_def print_out_def)
    have i3: "\<not> interrupted (print_out [BS] ?s3)"
      using i1 by (simp add: print_out_def child_progress_fields clock_checked_fields)
    have t3: "tick (print_out [BS] ?s3) = Suc (Suc (tick s))"
      using t1 by (simp add: print_out_def child_progress_fields clock_checked_fields)
    have "child s = Running"
      using True by (auto simp: child_progress_def split: proc.splits option.splits)
    then have "tick s \<le> m" using less.prems(2) by (rule fate_running_less [rotated])
    moreover have "tick s \<noteq> m"
    proof
      assume "tick s = m"
      then have "child_exit_at e (tick s) = Some st"
        using less.prems(2) \<open>child s = Running\<close> first_exit_step(4) [of e m st]
        by (auto simp: fate_def)
      then show False using True \<open>child s = Running\<close> by (simp add: child_progress_def)
    qed
    ultimately have lt: "tick s < m" by simp
    then have "m - tick (print_out [BS] ?s3) < m - tick s" using t3 by simp
    from less.hyps [OF this i3 f3, of "i + 1"]
    obtain s' where
      "poll_loop e sp pid start (i + 1) (print_out [BS] ?s3) = Some (Return (exit_code_of st), s')"
      by blast
    moreover have "\<not> timed_out e sp start ?s2"
      using lt by (intro never_times_out_D [OF assms(3)]) (simp add: child_progress_fields)
    ultimately have "poll_loop e sp pid start i s = Some (Return (exit_code_of st), s')"
      using less.prems(1) w sl
      by (subst poll_loop.simps) simp
    then show ?thesis by blast
  qed
qed

lemma spin_calm:
  assumes "fork_ret e \<noteq> 0" and "calm e" and "never_times_out e sp (clock_at e 0) m"
    and "first_exit e 0 m st"
  shows "\<exists>s'. spin e sp old = Some (Return (exit_code_of st), s')"
proof -
  have "fate e (armed_world e sp old) m st" "\<not> interrupted (armed_world e sp old)"
    using assms(4) by (simp_all add: fate_def armed_world_def)
  from poll_loop_calm [OF assms(2) assms(1) assms(3) this(2) this(1)]
  obtain s1 where
    "poll_loop e sp (fork_ret e) (clock_at e 0) 0 (armed_world e sp old)
       = Some (Return (exit_code_of st), s1)"
    by blast
  then show ?thesis
    using finally_block_facts [of s1 e "old_handlers old" "Return (exit_code_of st)"]
    by (auto simp: spin_parent [OF assms(1)] supervise_def)
qed

lemma calmI: "\<forall>n. sig_at e n = [] \<Longrightarrow> \<forall>n. fault_at e n = None \<Longrightarrow> calm e"
  by (simp add: calm_def)

lemma first_exitI:
  "child_exit_at e m = Some st \<Longrightarrow> \<forall>k<m. child_exit_at e k = None \<Longrightarrow> first_exit e 0 m st"
  by (simp add: first_exit_def)

lemma never_times_outI:
  "max_duration sp = None \<or>
     (\<exists>d. max_duration sp = Some d \<and> (\<forall>n\<le>m. clock_at e n - start < real_of_int d))
   \<Longrightarrow> never_times_out e sp start m"
  by (auto simp: never_times_out_def)

lemma exit_code_of_exited:
  "0 \<le> C \<Longrightarrow> C \<le> 255 \<Longrightarrow> exit_code_of (W_EXITCODE C 0) = C"
  by (simp add: exit_code_of_def W_EXITCODE_def WIFEXITED_def WTERMSIG_def WEXITSTATUS_def)

lemma exit_code_of_signaled:
  "0 < N \<Longrightarrow> N < 127 \<Longrightarrow> st = W_EXITCODE 0 N \<or> st = W_EXITCODE 0 N + 128 \<Longrightarrow>
   exit_code_of st = 128 + N"
  by (auto simp: exit_code_of_def W_EXITCODE_def WIFEXITED_def WTERMSIG_def WIFSIGNALED_def)

lemma exit_code_of_other:
  "\<not> WIFEXITED st \<Longrightarrow> \<not> WIFSIGNALED st \<Longrightarrow> exit_code_of st = 128"
  by (simp add: exit_code_of_def)

subsection \<open>The exit code of a child that ends on its own\<close>

text \<open>
  Claim C1. In the parent, when no signal reaches the supervisor, no call fails, the
  timeout (if one is set) is not reached while the child runs, and the child terminates
  by a normal exit with code \<open>C\<close> between 0 and 255, that is, with wait status
  \<open>W_EXITCODE C 0\<close>, the call returns, and it returns exactly \<open>C\<close>.
\<close>

theorem normal_exit_code_is_returned:
  assumes "fork_ret e \<noteq> 0"
    and "\<forall>n. sig_at e n = []"
    and "\<forall>n. fault_at e n = None"
    and "max_duration sp = None \<or>
         (\<exists>d. max_duration sp = Some d
              \<and> (\<forall>n\<le>m. clock_at e n - clock_at e 0 < real_of_int d))"
    and "child_exit_at e m = Some (W_EXITCODE C 0)" and "\<forall>k<m. child_exit_at e k = None"
    and "0 \<le> C" and "C \<le> 255"
  shows "\<exists>s'. spin e sp old = Some (Return C, s')"
  using spin_calm [OF assms(1) calmI [OF assms(2,3)] never_times_outI [OF assms(4)]
      first_exitI [OF assms(5,6)], of old]
  by (simp add: exit_code_of_exited [OF assms(7,8)])

lemma calm_env_bounds:
  "\<forall>n\<le>7. clock_at (calm_env pid m st) n - clock_at (calm_env pid m st) 0 < real_of_int 5"
  by (auto simp: calm_env_def)

theorem normal_exit_code_is_returned_witness:
  "fork_ret (calm_env 4242 7 (W_EXITCODE 42 0)) \<noteq> 0
   \<and> (\<forall>n. sig_at (calm_env 4242 7 (W_EXITCODE 42 0)) n = [])
   \<and> (\<forall>n. fault_at (calm_env 4242 7 (W_EXITCODE 42 0)) n = None)
   \<and> max_duration (demo_spinner\<lparr>max_duration := Some 5\<rparr>) = Some 5
   \<and> child_exit_at (calm_env 4242 7 (W_EXITCODE 42 0)) 7 = Some (W_EXITCODE 42 0)
   \<and> (\<exists>s'. spin (calm_env 4242 7 (W_EXITCODE 42 0)) (demo_spinner\<lparr>max_duration := Some 5\<rparr>)
              demo_old = Some (Return 42, s'))"
proof -
  let ?e = "calm_env 4242 7 (W_EXITCODE 42 0)"
  let ?sp = "demo_spinner\<lparr>max_duration := Some 5\<rparr>"
  have 1: "fork_ret ?e \<noteq> 0" by (simp add: calm_env_def)
  have 2: "\<forall>n. sig_at ?e n = []" by (simp add: calm_env_def)
  have 3: "\<forall>n. fault_at ?e n = None" by (simp add: calm_env_def)
  have 4: "max_duration ?sp = None \<or>
         (\<exists>d. max_duration ?sp = Some d
              \<and> (\<forall>n\<le>7. clock_at ?e n - clock_at ?e 0 < real_of_int d))"
    using calm_env_bounds [of 4242 7 "W_EXITCODE 42 0"] by simp
  have 5: "child_exit_at ?e 7 = Some (W_EXITCODE 42 0)" by (simp add: calm_env_def)
  have 6: "\<forall>k<7. child_exit_at ?e k = None" by (simp add: calm_env_def)
  have 7: "(0::int) \<le> 42" "(42::int) \<le> 255" by simp_all
  from normal_exit_code_is_returned [OF 1 2 3 4 5 6 7, of demo_old] 1 2 3 5
  show ?thesis by simp
qed

text \<open>
  Claim C2. Under the same conditions (no signal reaches the supervisor, no call fails,
  the timeout is not reached while the child runs), a child whose wait status says it was
  terminated by signal \<open>N\<close>, with or without the core-dump flag, makes the call return
  \<open>128 + N\<close>; and a wait status that is neither a normal exit nor a termination by a
  signal makes it return 128.
\<close>

theorem signal_death_returns_128_plus_signal:
  assumes "fork_ret e \<noteq> 0"
    and "\<forall>n. sig_at e n = []"
    and "\<forall>n. fault_at e n = None"
    and "max_duration sp = None \<or>
         (\<exists>d. max_duration sp = Some d
              \<and> (\<forall>n\<le>m. clock_at e n - clock_at e 0 < real_of_int d))"
    and "child_exit_at e m = Some st" and "\<forall>k<m. child_exit_at e k = None"
  shows "(0 < N \<and> N < 127 \<and> (st = W_EXITCODE 0 N \<or> st = W_EXITCODE 0 N + 128)
            \<longrightarrow> (\<exists>s'. spin e sp old = Some (Return (128 + N), s')))
       \<and> (\<not> WIFEXITED st \<and> \<not> WIFSIGNALED st
            \<longrightarrow> (\<exists>s'. spin e sp old = Some (Return 128, s')))"
  using spin_calm [OF assms(1) calmI [OF assms(2,3)] never_times_outI [OF assms(4)]
      first_exitI [OF assms(5,6)], of old]
    exit_code_of_signaled [of N st] exit_code_of_other [of st]
  by auto

theorem signal_death_returns_128_plus_signal_witness:
  "fork_ret (calm_env 4242 3 (W_EXITCODE 0 SIGTERM)) \<noteq> 0
   \<and> (\<forall>n. sig_at (calm_env 4242 3 (W_EXITCODE 0 SIGTERM)) n = [])
   \<and> (\<forall>n. fault_at (calm_env 4242 3 (W_EXITCODE 0 SIGTERM)) n = None)
   \<and> child_exit_at (calm_env 4242 3 (W_EXITCODE 0 SIGTERM)) 3 = Some (W_EXITCODE 0 SIGTERM)
   \<and> 0 < SIGTERM \<and> SIGTERM < 127
   \<and> (\<exists>s'. spin (calm_env 4242 3 (W_EXITCODE 0 SIGTERM)) demo_spinner demo_old
               = Some (Return (128 + 15), s'))
   \<and> \<not> WIFEXITED 127 \<and> \<not> WIFSIGNALED 127
   \<and> (\<exists>s'. spin (calm_env 4242 3 127) demo_spinner demo_old = Some (Return 128, s'))"
proof -
  let ?e = "calm_env 4242 3 (W_EXITCODE 0 SIGTERM)"
  let ?e' = "calm_env 4242 3 127"
  have 1: "fork_ret ?e \<noteq> 0" "fork_ret ?e' \<noteq> 0" by (simp_all add: calm_env_def)
  have 2: "\<forall>n. sig_at ?e n = []" "\<forall>n. sig_at ?e' n = []" by (simp_all add: calm_env_def)
  have 3: "\<forall>n. fault_at ?e n = None" "\<forall>n. fault_at ?e' n = None" by (simp_all add: calm_env_def)
  have 4: "max_duration demo_spinner = None \<or>
         (\<exists>d. max_duration demo_spinner = Some d
              \<and> (\<forall>n\<le>3. clock_at ?e n - clock_at ?e 0 < real_of_int d))"
      "max_duration demo_spinner = None \<or>
         (\<exists>d. max_duration demo_spinner = Some d
              \<and> (\<forall>n\<le>3. clock_at ?e' n - clock_at ?e' 0 < real_of_int d))"
    by (simp_all add: demo_spinner_def)
  have 5: "child_exit_at ?e 3 = Some (W_EXITCODE 0 SIGTERM)" "child_exit_at ?e' 3 = Some 127"
    by (simp_all add: calm_env_def)
  have 6: "\<forall>k<3. child_exit_at ?e k = None" "\<forall>k<3. child_exit_at ?e' k = None"
    by (simp_all add: calm_env_def)
  have 7: "0 < SIGTERM" "SIGTERM < 127" by (simp_all add: SIGTERM_def)
  have 8: "\<not> WIFEXITED 127" "\<not> WIFSIGNALED 127"
    by (simp_all add: WIFEXITED_def WIFSIGNALED_def WTERMSIG_def)
  from signal_death_returns_128_plus_signal [OF 1(1) 2(1) 3(1) 4(1) 5(1) 6(1), of SIGTERM demo_old]
    signal_death_returns_128_plus_signal [OF 1(2) 2(2) 3(2) 4(2) 5(2) 6(2), of 0 demo_old]
    1 2 3 5 7 8
  show ?thesis by (simp add: SIGTERM_def)
qed

subsection \<open>A command that cannot be launched\<close>

text \<open>
  Claim C6. Let \<^verbatim>\<open>execvp\<close> fail on the command with the error text \<open>msg\<close>. In the child
  (where \<^verbatim>\<open>fork\<close> returned 0) the call prints the failure on the error stream and ends
  the process with \<^verbatim>\<open>_exit(127)\<close>: it does nothing else, and in particular never reaches
  the parent's code. In the parent, the child's wait status is then that of exit code
  127, and when nothing else intervenes (no signal, no failing call, no timeout while the
  child runs) the call returns 127.
\<close>

theorem exec_failure_yields_127:
  assumes "try_execvp e (normalize_command (command sp)) = Some msg"
    and "pid \<noteq> 0"
    and "\<forall>n. sig_at e n = []"
    and "\<forall>n. fault_at e n = None"
    and "max_duration sp = None \<or>
         (\<exists>d. max_duration sp = Some d
              \<and> (\<forall>n\<le>m. clock_at e n - clock_at e 0 < real_of_int d))"
    and "child_exit_at e m = Some (W_EXITCODE 127 0)" and "\<forall>k<m. child_exit_at e k = None"
  shows "spin (e\<lparr>fork_ret := 0\<rparr>) sp old =
           Some (Child_exit 127,
                 (initial_world old)
                   \<lparr>trace := [Stdout (wait_message sp), Stdout hide_seq,
                              Stderr (NL # ''exec failed: '' @ msg @ [NL]), Os_exit 127]\<rparr>)
       \<and> (\<exists>s'. spin (e\<lparr>fork_ret := pid\<rparr>) sp old = Some (Return 127, s'))"
proof
  have "try_execvp (e\<lparr>fork_ret := 0\<rparr>) (normalize_command (command sp)) = Some msg"
    using assms(1) by (simp add: try_execvp_def split: list.splits)
  then show "spin (e\<lparr>fork_ret := 0\<rparr>) sp old =
           Some (Child_exit 127,
                 (initial_world old)
                   \<lparr>trace := [Stdout (wait_message sp), Stdout hide_seq,
                              Stderr (NL # ''exec failed: '' @ msg @ [NL]), Os_exit 127]\<rparr>)"
    by (simp add: spin_child child_branch_def hide_cursor_def print_out_def print_err_def
        initial_world_def)
  let ?e = "e\<lparr>fork_ret := pid\<rparr>"
  have c: "calm ?e" using assms(3,4) by (simp add: calm_def)
  have n: "never_times_out ?e sp (clock_at ?e 0) m"
    using assms(5) by (auto simp: never_times_out_def)
  have f: "first_exit ?e 0 m (W_EXITCODE 127 0)"
    using assms(6,7) by (simp add: first_exit_def)
  have p: "fork_ret ?e \<noteq> 0" using assms(2) by simp
  from spin_calm [OF p c n f, of old]
  show "\<exists>s'. spin ?e sp old = Some (Return 127, s')"
    by (simp add: exit_code_of_exited)
qed

theorem exec_failure_yields_127_witness:
  "try_execvp enoent_env (normalize_command (command nosuch_spinner))
     = Some ''[Errno 2] No such file or directory''
   \<and> (\<forall>n. sig_at enoent_env n = []) \<and> (\<forall>n. fault_at enoent_env n = None)
   \<and> child_exit_at enoent_env 2 = Some (W_EXITCODE 127 0)
   \<and> spin (enoent_env\<lparr>fork_ret := 0\<rparr>) nosuch_spinner demo_old =
           Some (Child_exit 127,
                 (initial_world demo_old)
                   \<lparr>trace := [Stdout (wait_message nosuch_spinner), Stdout hide_seq,
                              Stderr (NL # ''exec failed: '' @ ''[Errno 2] No such file or directory''
                                        @ [NL]),
                              Os_exit 127]\<rparr>)
   \<and> (\<exists>s'. spin (enoent_env\<lparr>fork_ret := 4242\<rparr>) nosuch_spinner demo_old
              = Some (Return 127, s'))"
proof -
  have 1: "try_execvp enoent_env (normalize_command (command nosuch_spinner))
     = Some ''[Errno 2] No such file or directory''"
    by (simp add: try_execvp_def normalize_command_def nosuch_spinner_def enoent_env_def)
  have 2: "(4242::int) \<noteq> 0" by simp
  have 3: "\<forall>n. sig_at enoent_env n = []" by (simp add: enoent_env_def calm_env_def)
  have 4: "\<forall>n. fault_at enoent_env n = None" by (simp add: enoent_env_def calm_env_def)
  have 5: "max_duration nosuch_spinner = None \<or>
         (\<exists>d. max_duration nosuch_spinner = Some d
              \<and> (\<forall>n\<le>2. clock_at enoent_env n - clock_at enoent_env 0 < real_of_int d))"
    by (simp add: nosuch_spinner_def demo_spinner_def)
  have 6: "child_exit_at enoent_env 2 = Some (W_EXITCODE 127 0)"
    by (simp add: enoent_env_def calm_env_def)
  have 7: "\<forall>k<2. child_exit_at enoent_env k = None"
    by (simp add: enoent_env_def calm_env_def)
  from exec_failure_yields_127 [OF 1 2 3 4 5 6 7, of demo_old] 1 3 4 6
  show ?thesis by simp
qed

lemma finally_block_calm:
  "calm e \<Longrightarrow>
   finally_block e olds out s =
     (out, (child_progress e (tick s) (s\<lparr>tick := Suc (tick s)\<rparr>))
             \<lparr>trace := trace s @ finally_events olds, handlers := restored olds (handlers s)\<rparr>)"
  by (cases olds)
    (simp add: finally_block_def env_point_calm py_signal_def show_cursor_def print_out_def
      finally_events_def restored_def Let_def child_progress_fields)

lemma timeout_path_calm:
  assumes "calm e" and "pid \<noteq> 0" and "child s = Running"
  shows "\<exists>s'. timeout_path e pid s = Some (Return 124, s') \<and> child s' = Reaped
        \<and> handlers s' = handlers s
        \<and> trace s' = trace s @
             [Stderr (NL # ''Process timed out.'' @ [NL]), Kill pid SIGTERM, Sleep 1] @
             (case grace_exit e (tick s) of
                Some st \<Rightarrow> [Waitpid WNOHANG pid st]
              | None \<Rightarrow> [Waitpid WNOHANG 0 0, Kill pid SIGKILL,
                         Waitpid 0 pid (W_EXITCODE 0 SIGKILL)])"
  using assms(2,3)
  by (cases "child_exit_at e (tick s)"; cases "child_exit_at e (Suc (tick s))")
    (simp_all add: timeout_path_def print_err_def os_kill_def SIGTERM_def SIGKILL_def
      py_sleep_calm [OF assms(1)] waitpid_nohang_def checkpoint_calm [OF assms(1)]
      child_progress_def reap_def grace_exit_def waitpid_block.simps)

lemma supervise_timeout_calm:
  assumes "calm e" and "pid \<noteq> 0"
    and "\<not> interrupted s" and "child s = Running" and "child_exit_at e (tick s) = None"
    and "max_duration sp = Some d" and "real_of_int d \<le> clock_at e (Suc (tick s)) - start"
  shows "\<exists>s'. supervise e sp pid start olds i s = Some (Return 124, s') \<and> child s' = Reaped
        \<and> trace s' = trace s @
             [Waitpid WNOHANG 0 0, Clock_read (clock_at e (Suc (tick s))),
              Stderr (NL # ''Process timed out.'' @ [NL]), Kill pid SIGTERM, Sleep 1] @
             (case grace_exit e (Suc (tick s)) of
                Some st \<Rightarrow> [Waitpid WNOHANG pid st]
              | None \<Rightarrow> [Waitpid WNOHANG 0 0, Kill pid SIGKILL,
                         Waitpid 0 pid (W_EXITCODE 0 SIGKILL)]) @
             finally_events olds"
proof -
  let ?s2 = "s\<lparr>tick := Suc (tick s), trace := trace s @ [Waitpid WNOHANG 0 0]\<rparr>"
  have w: "waitpid_nohang e pid s = Done (0, 0) ?s2"
    using assms(4,5)
    by (simp add: waitpid_nohang_def checkpoint_calm [OF assms(1)] child_progress_def)
  have to: "timed_out e sp start ?s2"
    using assms(6,7) by (simp add: timed_out_def monotonic_def)
  let ?c = "?s2\<lparr>trace := trace ?s2 @ [Clock_read (clock_at e (Suc (tick s)))]\<rparr>"
  have c: "clock_checked e sp ?s2 = ?c"
    using assms(6) by (simp add: clock_checked_def monotonic_def)
  have "child ?c = Running" using assms(4) by simp
  from timeout_path_calm [OF assms(1,2) this]
  obtain s1 where s1: "timeout_path e pid ?c = Some (Return 124, s1)" "child s1 = Reaped"
    "trace s1 = trace ?c @
             [Stderr (NL # ''Process timed out.'' @ [NL]), Kill pid SIGTERM, Sleep 1] @
             (case grace_exit e (tick ?c) of
                Some st \<Rightarrow> [Waitpid WNOHANG pid st]
              | None \<Rightarrow> [Waitpid WNOHANG 0 0, Kill pid SIGKILL,
                         Waitpid 0 pid (W_EXITCODE 0 SIGKILL)])"
    by blast
  have "poll_loop e sp pid start i s = Some (Return 124, s1)"
    using assms(3) w to c s1(1) by (subst poll_loop.simps) simp
  then show ?thesis
    using s1(2,3)
    by (simp add: supervise_def finally_block_calm [OF assms(1)] child_progress_def
        child_progress_fields)
qed

subsection \<open>The timeout\<close>

text \<open>
  Claim C3. Take an iteration of the polling loop in which no interruption has been
  recorded, the non-blocking wait finds the child still running, a maximum duration \<open>d\<close>
  is configured and the clock shows that at least \<open>d\<close> seconds have passed since the
  start. With no signal reaching the supervisor and no failing call, the call then
  returns 124 with the child reaped, and what it does is exactly this: the wait that
  found the child running, the clock reading, the message on the error stream,
  \<^verbatim>\<open>kill(pid, SIGTERM)\<close>, a sleep of one second, and a second non-blocking wait; if the
  child has terminated by then, with whatever status, that wait reaps it; otherwise
  \<^verbatim>\<open>kill(pid, SIGKILL)\<close> and a blocking wait that reaps it; then the \<^verbatim>\<open>finally\<close> block.
  The return value is 124 in both cases.
\<close>

theorem timeout_escalates_and_returns_124:
  assumes "\<forall>n. sig_at e n = []" and "\<forall>n. fault_at e n = None" and "pid \<noteq> 0"
    and "\<not> interrupted s" and "child s = Running" and "child_exit_at e (tick s) = None"
    and "max_duration sp = Some d" and "real_of_int d \<le> clock_at e (Suc (tick s)) - start"
  shows "\<exists>s'. supervise e sp pid start olds i s = Some (Return 124, s') \<and> child s' = Reaped
        \<and> trace s' = trace s @
             [Waitpid WNOHANG 0 0, Clock_read (clock_at e (Suc (tick s))),
              Stderr (NL # ''Process timed out.'' @ [NL]), Kill pid SIGTERM, Sleep 1] @
             (case grace_exit e (Suc (tick s)) of
                Some st \<Rightarrow> [Waitpid WNOHANG pid st]
              | None \<Rightarrow> [Waitpid WNOHANG 0 0, Kill pid SIGKILL,
                         Waitpid 0 pid (W_EXITCODE 0 SIGKILL)]) @
             finally_events olds"
  using supervise_timeout_calm [OF calmI [OF assms(1,2)] assms(3-8)] .

theorem timeout_escalates_and_returns_124_witness:
  "(\<forall>n. sig_at (calm_env 4242 100 0) n = []) \<and> (\<forall>n. fault_at (calm_env 4242 100 0) n = None)
   \<and> (4242::int) \<noteq> 0 \<and> \<not> interrupted late_poll \<and> child late_poll = Running
   \<and> child_exit_at (calm_env 4242 100 0) (tick late_poll) = None
   \<and> max_duration slow_spinner = Some 2
   \<and> real_of_int 2 \<le> clock_at (calm_env 4242 100 0) (Suc (tick late_poll)) - 0
   \<and> (\<exists>s'. supervise (calm_env 4242 100 0) slow_spinner 4242 0 (old_handlers demo_old) 5 late_poll
               = Some (Return 124, s') \<and> child s' = Reaped
        \<and> trace s' = trace late_poll @
             [Waitpid WNOHANG 0 0, Clock_read (11 / 5),
              Stderr (NL # ''Process timed out.'' @ [NL]), Kill 4242 SIGTERM, Sleep 1,
              Waitpid WNOHANG 0 0, Kill 4242 SIGKILL, Waitpid 0 4242 (W_EXITCODE 0 SIGKILL)] @
             finally_events (old_handlers demo_old))"
proof -
  let ?e = "calm_env 4242 100 0"
  have 1: "\<forall>n. sig_at ?e n = []" by (simp add: calm_env_def)
  have 2: "\<forall>n. fault_at ?e n = None" by (simp add: calm_env_def)
  have 3: "(4242::int) \<noteq> 0" by simp
  have 4: "\<not> interrupted late_poll" by (simp add: late_poll_def armed_world_def)
  have 5: "child late_poll = Running" by (simp add: late_poll_def armed_world_def)
  have t: "tick late_poll = 10" by (simp add: late_poll_def)
  have 6: "child_exit_at ?e (tick late_poll) = None" by (simp add: t calm_env_def)
  have 7: "max_duration slow_spinner = Some 2" by (simp add: slow_spinner_def)
  have 8: "real_of_int 2 \<le> clock_at ?e (Suc (tick late_poll)) - 0" by (simp add: t calm_env_def)
  have g: "grace_exit ?e (Suc (tick late_poll)) = None" by (simp add: t grace_exit_def calm_env_def)
  have c: "clock_at ?e (Suc (tick late_poll)) = 11 / 5" by (simp add: t calm_env_def)
  from timeout_escalates_and_returns_124 [OF 1 2 3 4 5 6 7 8, of "old_handlers demo_old" 5]
    1 2 3 4 5 6 7 8
  show ?thesis by (simp add: g c)
qed



subsection \<open>Interruption\<close>




subsection \<open>Whole runs\<close>

text \<open>
  The command \<^verbatim>\<open>["sleep", "5"]\<close> with a maximum duration of two seconds, on a clock
  that advances by a fifth of a second at each point: five turns of the animation, then
  the escalation, SIGTERM first and SIGKILL after the grace period, and the value 124.
\<close>

theorem slow_command_times_out:
  "run_outcome (spin (calm_env 4242 100 0) slow_spinner demo_old) = Some (Return 124)
   \<and> run_trace (spin (calm_env 4242 100 0) slow_spinner demo_old) =
       [Stdout ''Hehe Waitin '', Stdout hide_seq,
        Set_signal SIGINT (Sig_handler 4242), Set_signal SIGTERM (Sig_handler 4242),
        Set_signal SIGQUIT (Sig_handler 4242),
        Waitpid WNOHANG 0 0, Clock_read (1 / 5), Stdout ''-'', Sleep (2 / 10), Stdout [BS],
        Waitpid WNOHANG 0 0, Clock_read (3 / 5), Stdout [CHR 0x5C], Sleep (2 / 10), Stdout [BS],
        Waitpid WNOHANG 0 0, Clock_read 1, Stdout ''|'', Sleep (2 / 10), Stdout [BS],
        Waitpid WNOHANG 0 0, Clock_read (7 / 5), Stdout ''/'', Sleep (2 / 10), Stdout [BS],
        Waitpid WNOHANG 0 0, Clock_read (9 / 5), Stdout ''-'', Sleep (2 / 10), Stdout [BS],
        Waitpid WNOHANG 0 0, Clock_read (11 / 5),
        Stderr (NL # ''Process timed out.'' @ [NL]), Kill 4242 SIGTERM, Sleep 1,
        Waitpid WNOHANG 0 0, Kill 4242 SIGKILL, Waitpid 0 4242 (W_EXITCODE 0 SIGKILL),
        Set_signal SIGINT (Previous (Callable 0)), Set_signal SIGTERM (Previous SIG_DFL),
        Set_signal SIGQUIT (Previous SIG_DFL), Stdout show_seq, Stdout [NL]]"
  by (simp add: run_defs poll_loop.simps waitpid_block.simps calm_env_def slow_spinner_def
      demo_spinner_def demo_old_def spinner_glyphs_def SIGINT_def SIGTERM_def SIGQUIT_def
      SIGKILL_def W_EXITCODE_def run_outcome_def run_trace_def)

text \<open>
  SIGINT reaches the supervisor during the first sleep of the animation. The handler
  forwards it, the next iteration finds \<^verbatim>\<open>interrupted\<close> set, waits for the child, which
  dies of the signal, and the call returns 128 + 2.
\<close>

theorem interrupted_run_returns_130:
  "run_outcome (spin sigint_env demo_spinner demo_old) = Some (Return 130)
   \<and> run_trace (spin sigint_env demo_spinner demo_old) =
       [Stdout ''Hehe Waitin '', Stdout hide_seq,
        Set_signal SIGINT (Sig_handler 4242), Set_signal SIGTERM (Sig_handler 4242),
        Set_signal SIGQUIT (Sig_handler 4242),
        Waitpid WNOHANG 0 0, Stdout ''-'', Kill 4242 SIGINT, Sleep (2 / 10), Stdout [BS],
        Sleep (1 / 10), Waitpid 0 4242 (W_EXITCODE 0 SIGINT),
        Stderr (NL # ''Interrupted by SIGINT.'' @ [NL]),
        Set_signal SIGINT (Previous (Callable 0)), Set_signal SIGTERM (Previous SIG_DFL),
        Set_signal SIGQUIT (Previous SIG_DFL), Stdout show_seq, Stdout [NL]]"
  by (simp add: run_defs poll_loop.simps waitpid_block.simps calm_env_def sigint_env_def
      demo_spinner_def demo_old_def spinner_glyphs_def SIGINT_def SIGTERM_def SIGQUIT_def
      SIGKILL_def W_EXITCODE_def run_outcome_def run_trace_def signal_name_def)

text \<open>
  Two runs in which a signal is recorded and forwarded but never seen by the loop. In
  the first the child has exited with code 0 when SIGINT arrives, just before the first
  non-blocking wait: the wait reaps the child and the call returns the child's code. In
  the second SIGINT arrives during the grace period of the timeout: the call returns
  124.
\<close>

theorem signal_after_exit_returns_exit_code:
  "run_outcome (spin race_env demo_spinner demo_old) = Some (Return 0)
   \<and> run_trace (spin race_env demo_spinner demo_old) =
       [Stdout ''Hehe Waitin '', Stdout hide_seq,
        Set_signal SIGINT (Sig_handler 4242), Set_signal SIGTERM (Sig_handler 4242),
        Set_signal SIGQUIT (Sig_handler 4242),
        Kill 4242 SIGINT, Waitpid WNOHANG 4242 0,
        Set_signal SIGINT (Previous (Callable 0)), Set_signal SIGTERM (Previous SIG_DFL),
        Set_signal SIGQUIT (Previous SIG_DFL), Stdout show_seq, Stdout [NL]]"
  by (simp add: run_defs poll_loop.simps waitpid_block.simps calm_env_def race_env_def
      demo_spinner_def demo_old_def spinner_glyphs_def SIGINT_def SIGTERM_def SIGQUIT_def
      SIGKILL_def W_EXITCODE_def run_outcome_def run_trace_def signal_name_def)

theorem signal_during_grace_returns_124:
  "run_outcome (spin grace_env (demo_spinner\<lparr>max_duration := Some 0\<rparr>) demo_old)
     = Some (Return 124)
   \<and> run_trace (spin grace_env (demo_spinner\<lparr>max_duration := Some 0\<rparr>) demo_old) =
       [Stdout ''Hehe Waitin '', Stdout hide_seq,
        Set_signal SIGINT (Sig_handler 4242), Set_signal SIGTERM (Sig_handler 4242),
        Set_signal SIGQUIT (Sig_handler 4242),
        Waitpid WNOHANG 0 0, Clock_read (1 / 5),
        Stderr (NL # ''Process timed out.'' @ [NL]), Kill 4242 SIGTERM, Kill 4242 SIGINT,
        Sleep 1, Waitpid WNOHANG 4242 (W_EXITCODE 0 SIGTERM),
        Set_signal SIGINT (Previous (Callable 0)), Set_signal SIGTERM (Previous SIG_DFL),
        Set_signal SIGQUIT (Previous SIG_DFL), Stdout show_seq, Stdout [NL]]"
  by (simp add: run_defs poll_loop.simps waitpid_block.simps calm_env_def grace_env_def
      demo_spinner_def demo_old_def spinner_glyphs_def SIGINT_def SIGTERM_def SIGQUIT_def
      SIGKILL_def W_EXITCODE_def run_outcome_def run_trace_def signal_name_def)

subsection \<open>The cursor sequences\<close>

lemma count_list_none: "list_all P evs \<Longrightarrow> \<not> P a \<Longrightarrow> count_list evs a = 0"
  by (induction evs) auto

lemma cursor_not_body:
  "\<not> body_event (Stdout hide_seq)" "\<not> body_event (Stdout show_seq)"
  "\<not> sys_event (Stdout hide_seq)" "\<not> sys_event (Stdout show_seq)"
  by (auto simp: body_event_def sys_event_def is_animation_def is_timeout_check_def
      hide_seq_def show_seq_def spinner_glyphs_def)

lemma wait_message_not_cursor:
  "wait_message sp \<noteq> hide_seq" "wait_message sp \<noteq> show_seq"
proof -
  have "last (wait_message sp) = CHR '' ''" by (simp add: wait_message_def)
  moreover have "last hide_seq = CHR ''l''" "last show_seq = CHR ''h''"
    by (simp_all add: hide_seq_def show_seq_def)
  ultimately show "wait_message sp \<noteq> hide_seq" "wait_message sp \<noteq> show_seq"
    by auto
qed

text \<open>
  Every call that control leaves, by a return or by an exception from the \<^verbatim>\<open>try\<close>
  block, has written the hide-cursor sequence exactly once and the show-cursor sequence
  exactly once.
\<close>

theorem cursor_hidden_once_shown_once:
  assumes "spin e sp old = Some (out, s')" and "leaves_spin out"
  shows "count_list (trace s') (Stdout hide_seq) = 1
       \<and> count_list (trace s') (Stdout show_seq) = 1"
proof -
  have pid: "fork_ret e \<noteq> 0"
  proof
    assume "fork_ret e = 0"
    then have "\<not> leaves_spin out"
      using assms(1) child_branch_never_leaves
        [of e "normalize_command (command sp)"
            "hide_cursor (print_out (wait_message sp) (initial_world old))"]
      by (auto simp: spin_child)
    with assms(2) show False by simp
  qed
  from supervise_facts [OF assms(1) [unfolded spin_parent [OF pid]]]
  obtain s1 s2 where 1: "loop_post (fork_ret e) (armed_world e sp old) (out, s1)"
    "passes s1 s2"
    "s' = s2\<lparr>trace := trace s2 @ finally_events (old_handlers old),
                handlers := restored (old_handlers old) (handlers s1)\<rparr>"
    by blast
  from 1(1) obtain evs1 where evs1: "trace s1 = trace (armed_world e sp old) @ evs1"
    "list_all body_event evs1"
    by (auto simp: loop_post_def grows_by_def)
  from 1(2) obtain evs2 where evs2: "trace s2 = trace s1 @ evs2" "list_all sys_event evs2"
    by (auto simp: passes_def grows_by_def)
  have tr: "trace s' = trace (armed_world e sp old) @ evs1 @ evs2
              @ finally_events (old_handlers old)"
    using 1(3) evs1(1) evs2(1) by simp
  have z: "count_list evs1 (Stdout hide_seq) = 0" "count_list evs1 (Stdout show_seq) = 0"
    "count_list evs2 (Stdout hide_seq) = 0" "count_list evs2 (Stdout show_seq) = 0"
    using count_list_none [OF evs1(2)] count_list_none [OF evs2(2)] cursor_not_body
    by simp_all
  have hs: "hide_seq \<noteq> show_seq" "hide_seq \<noteq> [NL]" "show_seq \<noteq> [NL]"
    by (simp_all add: hide_seq_def show_seq_def)
  show ?thesis
    using z hs wait_message_not_cursor [of sp]
    by (simp add: tr armed_world_def finally_events_def old_handlers_def)
qed

theorem cursor_hidden_once_shown_once_witness:
  "\<exists>s'. spin faulty_env demo_spinner demo_old = Some (Raised (Internal_error ''boom''), s')
     \<and> leaves_spin (Raised (Internal_error ''boom''))
     \<and> count_list (trace s') (Stdout hide_seq) = 1
     \<and> count_list (trace s') (Stdout show_seq) = 1"
proof -
  obtain s' where
    run: "spin faulty_env demo_spinner demo_old = Some (Raised (Internal_error ''boom''), s')"
    using faulty_run by blast
  have l: "leaves_spin (Raised (Internal_error ''boom''))" by simp
  from cursor_hidden_once_shown_once [OF run l] run show ?thesis by simp
qed

end
